theory Spec2Isabelle
  imports Main "HOL-Library.Word"
begin

section \<open>The pack/unpack format decoder of ext/yarp/extension.c\<close>

text \<open>
  The development embeds \<^verbatim>\<open>pack_parse\<close> (extension.c, lines 367-446) and the
  conversion helpers it calls (lines 222-365). The single-step directive parser
  \<^verbatim>\<open>yp_pack_parse\<close> that the loop calls is not part of extension.c: the driver is
  modelled with that function as a parameter, and a second model of it, written from the
  specification, is given further down.
\<close>

subsection \<open>Enumerations of the pack library named by extension.c\<close>

datatype yp_pack_version = YP_PACK_VERSION_3_2_0

datatype yp_pack_variant = YP_PACK_VARIANT_PACK | YP_PACK_VARIANT_UNPACK

datatype yp_pack_type =
    YP_PACK_SPACE
  | YP_PACK_COMMENT
  | YP_PACK_INTEGER
  | YP_PACK_UTF8
  | YP_PACK_BER
  | YP_PACK_FLOAT
  | YP_PACK_STRING_SPACE_PADDED
  | YP_PACK_STRING_NULL_PADDED
  | YP_PACK_STRING_NULL_TERMINATED
  | YP_PACK_STRING_MSB
  | YP_PACK_STRING_LSB
  | YP_PACK_STRING_HEX_HIGH
  | YP_PACK_STRING_HEX_LOW
  | YP_PACK_STRING_UU
  | YP_PACK_STRING_MIME
  | YP_PACK_STRING_BASE64
  | YP_PACK_STRING_FIXED
  | YP_PACK_STRING_POINTER
  | YP_PACK_MOVE
  | YP_PACK_BACK
  | YP_PACK_NULL
  | YP_PACK_END

datatype yp_pack_signed = YP_PACK_UNSIGNED | YP_PACK_SIGNED | YP_PACK_SIGNED_NA

datatype yp_pack_endian =
    YP_PACK_AGNOSTIC_ENDIAN
  | YP_PACK_LITTLE_ENDIAN
  | YP_PACK_BIG_ENDIAN
  | YP_PACK_NATIVE_ENDIAN
  | YP_PACK_ENDIAN_NA

datatype yp_pack_size =
    YP_PACK_SIZE_SHORT
  | YP_PACK_SIZE_INT
  | YP_PACK_SIZE_LONG
  | YP_PACK_SIZE_LONG_LONG
  | YP_PACK_SIZE_8
  | YP_PACK_SIZE_16
  | YP_PACK_SIZE_32
  | YP_PACK_SIZE_64
  | YP_PACK_SIZE_P
  | YP_PACK_SIZE_NA

datatype yp_pack_length_type =
    YP_PACK_LENGTH_FIXED
  | YP_PACK_LENGTH_MAX
  | YP_PACK_LENGTH_RELATIVE
  | YP_PACK_LENGTH_NA

datatype yp_pack_encoding =
    YP_PACK_ENCODING_START
  | YP_PACK_ENCODING_ASCII_8BIT
  | YP_PACK_ENCODING_US_ASCII
  | YP_PACK_ENCODING_UTF_8

text \<open>
  The result code of one resolver call. The switch of \<^verbatim>\<open>pack_parse\<close> names six
  enumerators and has a \<^verbatim>\<open>default\<close> arm; \<open>YP_PACK_RESULT_UNLISTED\<close> stands for every
  value of the C enumeration type that is none of the six.
\<close>

datatype yp_pack_result =
    YP_PACK_OK
  | YP_PACK_ERROR_UNSUPPORTED_DIRECTIVE
  | YP_PACK_ERROR_UNKNOWN_DIRECTIVE
  | YP_PACK_ERROR_LENGTH_TOO_BIG
  | YP_PACK_ERROR_BANG_NOT_ALLOWED
  | YP_PACK_ERROR_DOUBLE_ENDIAN
  | YP_PACK_RESULT_UNLISTED

subsection \<open>Ruby values and the ways a call leaves without returning\<close>

datatype rb_class = rb_cYARPPackDirective | rb_cYARPPackFormat

datatype rb_encoding = ASCII_8BIT | US_ASCII | UTF_8

text \<open>
  The Ruby objects \<^verbatim>\<open>pack_parse\<close> receives and builds: \<open>RObject c args\<close> is the
  object made by \<^verbatim>\<open>rb_class_new_instance(n, args, c)\<close>, \<open>RArray\<close> an array filled by
  \<^verbatim>\<open>rb_ary_push\<close>. Symbols are interned, so two symbols are the same \<^verbatim>\<open>VALUE\<close>
  exactly when their names are equal.
\<close>

datatype rb_value =
    Qnil
  | RSymbol string
  | RString string
  | RInteger int
  | REncoding rb_encoding
  | RArray "rb_value list"
  | RObject rb_class "rb_value list"

datatype rb_exception = rb_eArgError | rb_eRangeError | rb_eTypeError

text \<open>
  \<open>rb_raise c msg\<close> is a Ruby exception of class \<open>c\<close>, \<open>rb_bug msg\<close> the interpreter's
  abort for an internal error. \<open>out_of_bounds_read\<close> marks a read past the end of the
  format string, which C leaves undefined.
\<close>

datatype abort = rb_raise rb_exception string | rb_bug string | out_of_bounds_read

definition v3_2_0_symbol :: rb_value where
  "v3_2_0_symbol = RSymbol ''v3_2_0''"

definition pack_symbol :: rb_value where
  "pack_symbol = RSymbol ''pack''"

definition unpack_symbol :: rb_value where
  "unpack_symbol = RSymbol ''unpack''"

subsection \<open>Conversions to Ruby values (lines 222-365)\<close>

fun pack_type_to_symbol :: "yp_pack_type \<Rightarrow> rb_value" where
  "pack_type_to_symbol YP_PACK_SPACE = RSymbol ''SPACE''"
| "pack_type_to_symbol YP_PACK_COMMENT = RSymbol ''COMMENT''"
| "pack_type_to_symbol YP_PACK_INTEGER = RSymbol ''INTEGER''"
| "pack_type_to_symbol YP_PACK_UTF8 = RSymbol ''UTF8''"
| "pack_type_to_symbol YP_PACK_BER = RSymbol ''BER''"
| "pack_type_to_symbol YP_PACK_FLOAT = RSymbol ''FLOAT''"
| "pack_type_to_symbol YP_PACK_STRING_SPACE_PADDED = RSymbol ''STRING_SPACE_PADDED''"
| "pack_type_to_symbol YP_PACK_STRING_NULL_PADDED = RSymbol ''STRING_NULL_PADDED''"
| "pack_type_to_symbol YP_PACK_STRING_NULL_TERMINATED = RSymbol ''STRING_NULL_TERMINATED''"
| "pack_type_to_symbol YP_PACK_STRING_MSB = RSymbol ''STRING_MSB''"
| "pack_type_to_symbol YP_PACK_STRING_LSB = RSymbol ''STRING_LSB''"
| "pack_type_to_symbol YP_PACK_STRING_HEX_HIGH = RSymbol ''STRING_HEX_HIGH''"
| "pack_type_to_symbol YP_PACK_STRING_HEX_LOW = RSymbol ''STRING_HEX_LOW''"
| "pack_type_to_symbol YP_PACK_STRING_UU = RSymbol ''STRING_UU''"
| "pack_type_to_symbol YP_PACK_STRING_MIME = RSymbol ''STRING_MIME''"
| "pack_type_to_symbol YP_PACK_STRING_BASE64 = RSymbol ''STRING_BASE64''"
| "pack_type_to_symbol YP_PACK_STRING_FIXED = RSymbol ''STRING_FIXED''"
| "pack_type_to_symbol YP_PACK_STRING_POINTER = RSymbol ''STRING_POINTER''"
| "pack_type_to_symbol YP_PACK_MOVE = RSymbol ''MOVE''"
| "pack_type_to_symbol YP_PACK_BACK = RSymbol ''BACK''"
| "pack_type_to_symbol YP_PACK_NULL = RSymbol ''NULL''"
| "pack_type_to_symbol _ = Qnil"

fun pack_signed_to_symbol :: "yp_pack_signed \<Rightarrow> rb_value" where
  "pack_signed_to_symbol YP_PACK_UNSIGNED = RSymbol ''UNSIGNED''"
| "pack_signed_to_symbol YP_PACK_SIGNED = RSymbol ''SIGNED''"
| "pack_signed_to_symbol YP_PACK_SIGNED_NA = RSymbol ''SIGNED_NA''"

fun pack_endian_to_symbol :: "yp_pack_endian \<Rightarrow> rb_value" where
  "pack_endian_to_symbol YP_PACK_AGNOSTIC_ENDIAN = RSymbol ''AGNOSTIC_ENDIAN''"
| "pack_endian_to_symbol YP_PACK_LITTLE_ENDIAN = RSymbol ''LITTLE_ENDIAN''"
| "pack_endian_to_symbol YP_PACK_BIG_ENDIAN = RSymbol ''BIG_ENDIAN''"
| "pack_endian_to_symbol YP_PACK_NATIVE_ENDIAN = RSymbol ''NATIVE_ENDIAN''"
| "pack_endian_to_symbol YP_PACK_ENDIAN_NA = RSymbol ''ENDIAN_NA''"

fun pack_size_to_symbol :: "yp_pack_size \<Rightarrow> rb_value" where
  "pack_size_to_symbol YP_PACK_SIZE_SHORT = RSymbol ''SIZE_SHORT''"
| "pack_size_to_symbol YP_PACK_SIZE_INT = RSymbol ''SIZE_INT''"
| "pack_size_to_symbol YP_PACK_SIZE_LONG = RSymbol ''SIZE_LONG''"
| "pack_size_to_symbol YP_PACK_SIZE_LONG_LONG = RSymbol ''SIZE_LONG_LONG''"
| "pack_size_to_symbol YP_PACK_SIZE_8 = RSymbol ''SIZE_8''"
| "pack_size_to_symbol YP_PACK_SIZE_16 = RSymbol ''SIZE_16''"
| "pack_size_to_symbol YP_PACK_SIZE_32 = RSymbol ''SIZE_32''"
| "pack_size_to_symbol YP_PACK_SIZE_64 = RSymbol ''SIZE_64''"
| "pack_size_to_symbol YP_PACK_SIZE_P = RSymbol ''SIZE_P''"
| "pack_size_to_symbol YP_PACK_SIZE_NA = RSymbol ''SIZE_NA''"

fun pack_length_type_to_symbol :: "yp_pack_length_type \<Rightarrow> rb_value" where
  "pack_length_type_to_symbol YP_PACK_LENGTH_FIXED = RSymbol ''LENGTH_FIXED''"
| "pack_length_type_to_symbol YP_PACK_LENGTH_MAX = RSymbol ''LENGTH_MAX''"
| "pack_length_type_to_symbol YP_PACK_LENGTH_RELATIVE = RSymbol ''LENGTH_RELATIVE''"
| "pack_length_type_to_symbol YP_PACK_LENGTH_NA = RSymbol ''LENGTH_NA''"

text \<open>
  \<^verbatim>\<open>pack_encoding_to_ruby\<close>: three enumerators pick an encoding index; every other
  value, \<open>YP_PACK_ENCODING_START\<close> among them, takes the \<^verbatim>\<open>default\<close> arm and gives nil.
\<close>

fun pack_encoding_to_ruby :: "yp_pack_encoding \<Rightarrow> rb_value" where
  "pack_encoding_to_ruby YP_PACK_ENCODING_ASCII_8BIT = REncoding ASCII_8BIT"
| "pack_encoding_to_ruby YP_PACK_ENCODING_US_ASCII = REncoding US_ASCII"
| "pack_encoding_to_ruby YP_PACK_ENCODING_UTF_8 = REncoding UTF_8"
| "pack_encoding_to_ruby _ = Qnil"

subsection \<open>The Ruby C API calls of the loop\<close>

text \<open>
  \<^verbatim>\<open>StringValue\<close> leaves a String as it is and raises a TypeError for a value that has
  no conversion to String. None of the values of \<open>rb_value\<close> other than \<open>RString\<close>
  has one.
\<close>

definition StringValue :: "rb_value \<Rightarrow> abort + string" where
  "StringValue v =
     (case v of
        RString s \<Rightarrow> Inr s
      | _ \<Rightarrow> Inl (rb_raise rb_eTypeError ''no implicit conversion into String''))"

text \<open>
  \<^verbatim>\<open>rb_usascii_str_new(ptr, len)\<close> copies \<open>len\<close> bytes starting at \<open>ptr\<close>. The pointer
  is an offset into the format string \<open>mem\<close>. A negative \<open>len\<close> raises an ArgumentError
  in Ruby; a range that leaves the string is a read out of bounds.
\<close>

definition rb_usascii_str_new :: "string \<Rightarrow> nat \<Rightarrow> int \<Rightarrow> abort + rb_value" where
  "rb_usascii_str_new mem ptr len =
     (if len < 0 then Inl (rb_raise rb_eArgError ''negative string size (or size too big)'')
      else if length mem < ptr + nat len then Inl out_of_bounds_read
      else Inr (RString (take (nat len) (drop ptr mem))))"

text \<open>
  \<^verbatim>\<open>LONG2NUM\<close> takes a C \<^verbatim>\<open>long\<close> and returns the Ruby Integer of its signed value.
  \<^verbatim>\<open>pack_parse\<close> passes it a \<^verbatim>\<open>uint64_t\<close>: with a 64-bit \<^verbatim>\<open>long\<close> the conversion
  keeps the 64 bits and the macro reads them as two's complement.
\<close>

definition LONG2NUM :: "64 word \<Rightarrow> rb_value" where
  "LONG2NUM v = RInteger (sint v)"

subsection \<open>The resolver as a parameter\<close>

text \<open>
  One call \<^verbatim>\<open>yp_pack_parse(version, variant, &format, format_end, &type, &signed_type,
  &endian, &size, &length_type, &length, &encoding)\<close> returns a result code and writes
  through its pointers. The record holds the result code and the value behind each pointer
  after the call; the cursor \<open>format_out\<close> is an offset into the format string.
\<close>

record yp_pack_out =
  parse_result :: yp_pack_result
  format_out :: nat
  type_out :: yp_pack_type
  signed_type_out :: yp_pack_signed
  endian_out :: yp_pack_endian
  size_out :: yp_pack_size
  length_type_out :: yp_pack_length_type
  length_out :: "64 word"
  encoding_out :: yp_pack_encoding

text \<open>
  The arguments are the version, the variant, the bytes of the format string (its length
  is \<^verbatim>\<open>format_end\<close>), the cursor and the running encoding before the call.
\<close>

type_synonym resolver =
  "yp_pack_version \<Rightarrow> yp_pack_variant \<Rightarrow> string \<Rightarrow> nat \<Rightarrow> yp_pack_encoding \<Rightarrow> yp_pack_out"

subsection \<open>The decode loop (lines 367-446)\<close>

text \<open>The local variables that live across iterations of the \<^verbatim>\<open>while\<close> loop.\<close>

record scan_state =
  format :: nat
  encoding :: yp_pack_encoding
  directives_array :: "rb_value list"

text \<open>
  The \<^verbatim>\<open>switch (parse_result)\<close> of lines 408-423: \<open>None\<close> for the \<^verbatim>\<open>break\<close> of
  \<open>YP_PACK_OK\<close>, otherwise the way the call is left.
\<close>

fun parse_result_switch :: "yp_pack_result \<Rightarrow> abort option" where
  "parse_result_switch YP_PACK_OK = None"
| "parse_result_switch YP_PACK_ERROR_UNSUPPORTED_DIRECTIVE =
     Some (rb_raise rb_eArgError ''unsupported directive'')"
| "parse_result_switch YP_PACK_ERROR_UNKNOWN_DIRECTIVE =
     Some (rb_raise rb_eArgError ''unsupported directive'')"
| "parse_result_switch YP_PACK_ERROR_LENGTH_TOO_BIG =
     Some (rb_raise rb_eRangeError ''pack length too big'')"
| "parse_result_switch YP_PACK_ERROR_BANG_NOT_ALLOWED =
     Some (rb_raise rb_eRangeError ''bang not allowed'')"
| "parse_result_switch YP_PACK_ERROR_DOUBLE_ENDIAN =
     Some (rb_raise rb_eRangeError ''double endian'')"
| "parse_result_switch _ = Some (rb_bug ''parse result'')"

text \<open>How one run of the loop body ends.\<close>

datatype iteration = Abort abort | Break scan_state | Next scan_state

text \<open>
  The loop body, lines 394-439, entered with \<open>format st < length fmt\<close>. After the
  resolver call the cursor and the encoding are what the call left behind its pointers.
\<close>

definition pack_parse_body ::
  "resolver \<Rightarrow> yp_pack_version \<Rightarrow> yp_pack_variant \<Rightarrow> rb_value \<Rightarrow> rb_value \<Rightarrow> string \<Rightarrow>
   scan_state \<Rightarrow> iteration" where
  "pack_parse_body yp_pack_parse version variant version_symbol variant_symbol fmt st =
     (let directive_start = format st;
          r = yp_pack_parse version variant fmt (format st) (encoding st);
          directive_end = format_out r
      in case parse_result_switch (parse_result r) of
           Some a \<Rightarrow> Abort a
         | None \<Rightarrow>
             if type_out r = YP_PACK_END
             then Break (st\<lparr>format := format_out r, encoding := encoding_out r\<rparr>)
             else
               (case rb_usascii_str_new fmt directive_start
                       (int directive_end - int directive_start) of
                  Inl a \<Rightarrow> Abort a
                | Inr source \<Rightarrow>
                    Next \<lparr>format = format_out r,
                          encoding = encoding_out r,
                          directives_array = directives_array st @
                            [RObject rb_cYARPPackDirective
                               [version_symbol,
                                variant_symbol,
                                source,
                                pack_type_to_symbol (type_out r),
                                pack_signed_to_symbol (signed_type_out r),
                                pack_endian_to_symbol (endian_out r),
                                pack_size_to_symbol (size_out r),
                                pack_length_type_to_symbol (length_type_out r),
                                LONG2NUM (length_out r)]]\<rparr>))"

text \<open>
  The \<^verbatim>\<open>while (format < format_end)\<close> loop. The resolver is arbitrary, so the loop may
  run forever: \<open>None\<close> is the loop that does not return.
\<close>

partial_function (option) pack_parse_loop ::
  "resolver \<Rightarrow> yp_pack_version \<Rightarrow> yp_pack_variant \<Rightarrow> rb_value \<Rightarrow> rb_value \<Rightarrow> string \<Rightarrow>
   scan_state \<Rightarrow> (abort + scan_state) option" where
  "pack_parse_loop yp_pack_parse version variant version_symbol variant_symbol fmt st =
     (if format st < length fmt then
        (case pack_parse_body yp_pack_parse version variant version_symbol variant_symbol
                fmt st of
           Abort a \<Rightarrow> Some (Inl a)
         | Break st' \<Rightarrow> Some (Inr st')
         | Next st' \<Rightarrow>
             pack_parse_loop yp_pack_parse version variant version_symbol variant_symbol
               fmt st')
      else Some (Inr st))"

text \<open>The value returned after the loop, lines 442-445.\<close>

definition pack_format_new :: "scan_state \<Rightarrow> rb_value" where
  "pack_format_new st =
     RObject rb_cYARPPackFormat
       [RArray (directives_array st), pack_encoding_to_ruby (encoding st)]"

text \<open>The locals at the first test of the loop condition, lines 387-391.\<close>

definition scan_start :: scan_state where
  "scan_start = \<lparr>format = 0, encoding = YP_PACK_ENCODING_START, directives_array = []\<rparr>"

definition pack_parse ::
  "resolver \<Rightarrow> rb_value \<Rightarrow> rb_value \<Rightarrow> rb_value \<Rightarrow> (abort + rb_value) option" where
  "pack_parse yp_pack_parse version_symbol variant_symbol format_string =
     (if version_symbol = v3_2_0_symbol then
        (let version = YP_PACK_VERSION_3_2_0 in
         case (if variant_symbol = pack_symbol then Inr YP_PACK_VARIANT_PACK
               else if variant_symbol = unpack_symbol then Inr YP_PACK_VARIANT_UNPACK
               else Inl (rb_raise rb_eArgError ''invalid variant'')) of
           Inl a \<Rightarrow> Some (Inl a)
         | Inr variant \<Rightarrow>
             (case StringValue format_string of
                Inl a \<Rightarrow> Some (Inl a)
              | Inr fmt \<Rightarrow>
                  (case pack_parse_loop yp_pack_parse version variant version_symbol
                          variant_symbol fmt scan_start of
                     None \<Rightarrow> None
                   | Some (Inl a) \<Rightarrow> Some (Inl a)
                   | Some (Inr st) \<Rightarrow> Some (Inr (pack_format_new st)))))
      else Some (Inl (rb_raise rb_eArgError ''invalid version'')))"

subsection \<open>Runs of the loop\<close>

text \<open>
  \<open>iterates \<dots> st st'\<close>: starting the loop in state \<open>st\<close>, some number of complete
  iterations (each passing the loop condition and reaching the \<^verbatim>\<open>rb_ary_push\<close> at
  the end of the body) leads to state \<open>st'\<close>.
\<close>

inductive iterates ::
  "resolver \<Rightarrow> yp_pack_version \<Rightarrow> yp_pack_variant \<Rightarrow> rb_value \<Rightarrow> rb_value \<Rightarrow> string \<Rightarrow>
   scan_state \<Rightarrow> scan_state \<Rightarrow> bool"
  for yp_pack_parse version variant version_symbol variant_symbol fmt
  where
    iterates_start:
      "iterates yp_pack_parse version variant version_symbol variant_symbol fmt st st"
  | iterates_next:
      "iterates yp_pack_parse version variant version_symbol variant_symbol fmt st st' \<Longrightarrow>
       format st' < length fmt \<Longrightarrow>
       pack_parse_body yp_pack_parse version variant version_symbol variant_symbol fmt st'
         = Next st'' \<Longrightarrow>
       iterates yp_pack_parse version variant version_symbol variant_symbol fmt st st''"

text \<open>
  \<open>loop_stops \<dots> st y\<close>: started in state \<open>st\<close>, the loop is left at once with outcome
  \<open>y\<close>: the loop condition fails, or the body aborts or breaks.
\<close>

definition loop_stops ::
  "resolver \<Rightarrow> yp_pack_version \<Rightarrow> yp_pack_variant \<Rightarrow> rb_value \<Rightarrow> rb_value \<Rightarrow> string \<Rightarrow>
   scan_state \<Rightarrow> abort + scan_state \<Rightarrow> bool" where
  "loop_stops yp_pack_parse version variant version_symbol variant_symbol fmt st y =
     (if format st < length fmt
      then (case pack_parse_body yp_pack_parse version variant version_symbol variant_symbol
                   fmt st of
              Abort a \<Rightarrow> y = Inl a
            | Break st' \<Rightarrow> y = Inr st'
            | Next st' \<Rightarrow> False)
      else y = Inr st)"

text \<open>
  \<open>resolved_spans \<dots> cursor enc rs\<close>: \<open>rs\<close> are the answers of successive resolver
  calls, the first at \<open>cursor\<close> with running encoding \<open>enc\<close>, each later one at the
  cursor and with the encoding the call before it left; every call is made with bytes
  remaining, returns \<open>YP_PACK_OK\<close> with a type other than \<open>YP_PACK_END\<close>, and leaves the
  cursor between its start and the end of the format string.
\<close>

fun resolved_spans ::
  "resolver \<Rightarrow> yp_pack_version \<Rightarrow> yp_pack_variant \<Rightarrow> string \<Rightarrow> nat \<Rightarrow> yp_pack_encoding \<Rightarrow>
   yp_pack_out list \<Rightarrow> bool" where
  "resolved_spans yp_pack_parse version variant fmt cursor enc [] = True"
| "resolved_spans yp_pack_parse version variant fmt cursor enc (r # rs) =
     (cursor < length fmt \<and>
      r = yp_pack_parse version variant fmt cursor enc \<and>
      parse_result r = YP_PACK_OK \<and>
      type_out r \<noteq> YP_PACK_END \<and>
      cursor \<le> format_out r \<and> format_out r \<le> length fmt \<and>
      resolved_spans yp_pack_parse version variant fmt (format_out r) (encoding_out r) rs)"

text \<open>The cursor and the running encoding after the calls that answered \<open>rs\<close>.\<close>

fun cursor_after :: "nat \<Rightarrow> yp_pack_out list \<Rightarrow> nat" where
  "cursor_after cursor [] = cursor"
| "cursor_after cursor (r # rs) = cursor_after (format_out r) rs"

fun encoding_after :: "yp_pack_encoding \<Rightarrow> yp_pack_out list \<Rightarrow> yp_pack_encoding" where
  "encoding_after enc [] = enc"
| "encoding_after enc (r # rs) = encoding_after (encoding_out r) rs"

text \<open>
  The directive objects for the answers \<open>rs\<close>, in the order of the calls: the object for an
  answer holds the two symbols of the call, the bytes from the cursor before the resolver
  call to the cursor after it, the symbols of the five resolved fields, and the length
  read as a signed \<^verbatim>\<open>long\<close>.
\<close>

fun directive_objects ::
  "rb_value \<Rightarrow> rb_value \<Rightarrow> string \<Rightarrow> nat \<Rightarrow> yp_pack_out list \<Rightarrow> rb_value list" where
  "directive_objects version_symbol variant_symbol fmt cursor [] = []"
| "directive_objects version_symbol variant_symbol fmt cursor (r # rs) =
     RObject rb_cYARPPackDirective
       [version_symbol,
        variant_symbol,
        RString (take (format_out r - cursor) (drop cursor fmt)),
        pack_type_to_symbol (type_out r),
        pack_signed_to_symbol (signed_type_out r),
        pack_endian_to_symbol (endian_out r),
        pack_size_to_symbol (size_out r),
        pack_length_type_to_symbol (length_type_out r),
        RInteger (sint (length_out r))]
     # directive_objects version_symbol variant_symbol fmt (format_out r) rs"

text \<open>The exception class a call raises, if it raises.\<close>

fun raised_class :: "(abort + rb_value) option \<Rightarrow> rb_exception option" where
  "raised_class (Some (Inl (rb_raise c msg))) = Some c"
| "raised_class _ = None"

text \<open>The symbol a caller passes to select a variant (lines 377-380, read backwards).\<close>

fun symbol_of_variant :: "yp_pack_variant \<Rightarrow> rb_value" where
  "symbol_of_variant YP_PACK_VARIANT_PACK = pack_symbol"
| "symbol_of_variant YP_PACK_VARIANT_UNPACK = unpack_symbol"

text \<open>
  The third argument of a directive object is the string cut out of the format string
  (\<^verbatim>\<open>directive_args[2]\<close>), the fourth the symbol of its type (\<^verbatim>\<open>directive_args[3]\<close>).
\<close>

fun directive_source :: "rb_value \<Rightarrow> string" where
  "directive_source (RObject c (a0 # a1 # RString s # args)) = s"
| "directive_source _ = []"

fun directive_type_symbol :: "rb_value \<Rightarrow> rb_value" where
  "directive_type_symbol (RObject c (a0 # a1 # a2 # t # args)) = t"
| "directive_type_symbol _ = Qnil"

section \<open>The single-step directive parser, from the specification\<close>

text \<open>
  Modelled from the spec: the per-letter grammar table consulted by the resolver
  (sections 1 and 4.2). The table is external data, so it is a parameter. An entry gives
  the letter's base type, its default signedness, endianness, size, length type and
  length, the variants the letter is valid for, the size the \<^verbatim>\<open>!\<close> modifier selects
  (\<open>None\<close> when the letter forbids \<^verbatim>\<open>!\<close>), and whether the letter accepts \<^verbatim>\<open><\<close> and
  \<^verbatim>\<open>>\<close> as overrides of its endianness.
\<close>

record pack_entry =
  entry_type :: yp_pack_type
  entry_signed :: yp_pack_signed
  entry_endian :: yp_pack_endian
  entry_size :: yp_pack_size
  entry_length_type :: yp_pack_length_type
  entry_length :: "64 word"
  entry_variants :: "yp_pack_variant list"
  entry_bang :: "yp_pack_size option"
  entry_endian_override :: bool

text \<open>
  Modelled from the spec: the table itself, per version and letter; a letter absent from
  the table has no entry (section 4.2).
\<close>

type_synonym pack_table = "yp_pack_version \<Rightarrow> char \<Rightarrow> pack_entry option"

text \<open>
  Modelled from the spec: the blank characters of the Format Scanner (section 4.1): space,
  tab and newline.
\<close>

definition is_space :: "char \<Rightarrow> bool" where
  "is_space c = (c = CHR '' '' \<or> c = CHR 0x09 \<or> c = CHR 0x0A)"

text \<open>
  Modelled from the spec: the characters of a numeric count (section 4.1), the decimal
  digits.
\<close>

definition is_digit :: "char \<Rightarrow> bool" where
  "is_digit c = (c \<in> set ''0123456789'')"

text \<open>
  Modelled from the spec: the modifier characters that extend a directive's span (section
  4.1): the digits, \<^verbatim>\<open>*\<close>, \<^verbatim>\<open>!\<close>, \<^verbatim>\<open><\<close> and \<^verbatim>\<open>>\<close>.
\<close>

definition is_modifier :: "char \<Rightarrow> bool" where
  "is_modifier c =
     (is_digit c \<or> c = CHR ''*'' \<or> c = CHR ''!'' \<or> c = CHR ''<'' \<or> c = CHR ''>'')"

text \<open>
  Modelled from the spec: the magnitude of a digit run (section 4.2, count resolution),
  as an unbounded natural number.
\<close>

definition decimal :: "string \<Rightarrow> nat" where
  "decimal ds = foldl (\<lambda>n c. 10 * n + (of_char c - 48)) 0 ds"

text \<open>
  Modelled from the spec: modifier resolution of the Directive Resolver (section 4.2); the
  function \<^verbatim>\<open>yp_pack_parse\<close> of the pack library is not in extension.c. The modifiers
  of one span are read left to right and the first fatal condition ends the resolution:
  \<^verbatim>\<open>!\<close> on a letter that forbids it is \<open>BangNotAllowed\<close>; a second \<^verbatim>\<open><\<close> or \<^verbatim>\<open>>\<close>,
  or one on a letter whose endianness is fixed, is \<open>DoubleEndian\<close>; \<^verbatim>\<open>*\<close> gives the
  length type \<open>Max\<close>; a digit run gives \<open>Fixed\<close> with its magnitude, and
  \<open>LengthTooBig\<close> when the magnitude exceeds the unsigned 64-bit range.
\<close>

function resolve_modifiers ::
  "pack_entry \<Rightarrow> bool \<Rightarrow> string \<Rightarrow> yp_pack_out \<Rightarrow> yp_pack_out" where
  "resolve_modifiers e explicit_endian [] out = out"
| "resolve_modifiers e explicit_endian (c # cs) out =
     (if c = CHR ''!'' then
        (case entry_bang e of
           None \<Rightarrow> out\<lparr>parse_result := YP_PACK_ERROR_BANG_NOT_ALLOWED\<rparr>
         | Some native \<Rightarrow> resolve_modifiers e explicit_endian cs (out\<lparr>size_out := native\<rparr>))
      else if c = CHR ''<'' \<or> c = CHR ''>'' then
        (if explicit_endian \<or> \<not> entry_endian_override e
         then out\<lparr>parse_result := YP_PACK_ERROR_DOUBLE_ENDIAN\<rparr>
         else resolve_modifiers e True cs
                (out\<lparr>endian_out :=
                   (if c = CHR ''<'' then YP_PACK_LITTLE_ENDIAN else YP_PACK_BIG_ENDIAN)\<rparr>))
      else if c = CHR ''*'' then
        resolve_modifiers e explicit_endian cs (out\<lparr>length_type_out := YP_PACK_LENGTH_MAX\<rparr>)
      else
        (let n = decimal (takeWhile is_digit (c # cs))
         in if 2 ^ 64 - 1 < n
            then out\<lparr>parse_result := YP_PACK_ERROR_LENGTH_TOO_BIG\<rparr>
            else resolve_modifiers e explicit_endian (dropWhile is_digit cs)
                   (out\<lparr>length_type_out := YP_PACK_LENGTH_FIXED, length_out := of_nat n\<rparr>)))"
  by pat_completeness auto
termination
  by (relation "measure (\<lambda>(e, x, cs, out). length cs)")
     (auto simp: length_dropWhile_le le_imp_less_Suc)

text \<open>
  Modelled from the spec: the Encoding Threader (section 4.3): a directive of type UTF8
  forces UTF-8, one of type BER forces ASCII-8BIT, every other type leaves the running
  encoding as it is.
\<close>

fun thread_encoding :: "yp_pack_encoding \<Rightarrow> yp_pack_type \<Rightarrow> yp_pack_encoding" where
  "thread_encoding enc YP_PACK_UTF8 = YP_PACK_ENCODING_UTF_8"
| "thread_encoding enc YP_PACK_BER = YP_PACK_ENCODING_ASCII_8BIT"
| "thread_encoding enc _ = enc"

text \<open>
  Modelled from the spec: the resolution of a span that carries no table data (section
  4.2: a pseudo-directive has its type and every other field not applicable).
\<close>

definition pseudo_directive :: "nat \<Rightarrow> yp_pack_type \<Rightarrow> yp_pack_encoding \<Rightarrow> yp_pack_out" where
  "pseudo_directive span_end t enc =
     \<lparr>parse_result = YP_PACK_OK, format_out = span_end, type_out = t,
      signed_type_out = YP_PACK_SIGNED_NA, endian_out = YP_PACK_ENDIAN_NA,
      size_out = YP_PACK_SIZE_NA, length_type_out = YP_PACK_LENGTH_NA, length_out = 0,
      encoding_out = enc\<rparr>"

text \<open>
  Modelled from the spec: one step of scanner, resolver and threader (sections 4.1 to
  4.3), standing for \<^verbatim>\<open>yp_pack_parse\<close> of the pack library, which is not in
  extension.c. At the end of input it signals the end; a run of blanks is one Space span; a
  \<^verbatim>\<open>#\<close> starts a Comment span that ends before the next newline; otherwise the span is
  the letter and the modifier characters that follow it. A letter without a table entry is
  \<open>UnknownDirective\<close>, a letter not valid for the variant is \<open>UnsupportedDirective\<close>.
  The running encoding is threaded when the span resolves.
\<close>

definition yp_pack_parse_spec :: "pack_table \<Rightarrow> resolver" where
  "yp_pack_parse_spec table version variant fmt cursor enc =
     (case drop cursor fmt of
        [] \<Rightarrow> pseudo_directive cursor YP_PACK_END enc
      | c # cs \<Rightarrow>
          if is_space c then
            pseudo_directive (cursor + 1 + length (takeWhile is_space cs)) YP_PACK_SPACE enc
          else if c = CHR ''#'' then
            pseudo_directive (cursor + 1 + length (takeWhile (\<lambda>x. x \<noteq> CHR 0x0A) cs))
              YP_PACK_COMMENT enc
          else
            (let mods = takeWhile is_modifier cs;
                 span_end = cursor + 1 + length mods
             in case table version c of
                  None \<Rightarrow>
                    (pseudo_directive span_end YP_PACK_END enc)
                      \<lparr>parse_result := YP_PACK_ERROR_UNKNOWN_DIRECTIVE\<rparr>
                | Some e \<Rightarrow>
                    if variant \<notin> set (entry_variants e) then
                      (pseudo_directive span_end YP_PACK_END enc)
                        \<lparr>parse_result := YP_PACK_ERROR_UNSUPPORTED_DIRECTIVE\<rparr>
                    else
                      (let out = resolve_modifiers e False mods
                                   \<lparr>parse_result = YP_PACK_OK, format_out = span_end,
                                    type_out = entry_type e, signed_type_out = entry_signed e,
                                    endian_out = entry_endian e, size_out = entry_size e,
                                    length_type_out = entry_length_type e,
                                    length_out = entry_length e, encoding_out = enc\<rparr>
                       in if parse_result out = YP_PACK_OK
                          then out\<lparr>encoding_out := thread_encoding enc (type_out out)\<rparr>
                          else out)))"

text \<open>
  Modelled from the spec: an instance of the table parameter, for running the decoder on
  concrete format strings. The authoritative table is not part of the specification
  (section 9); this one has an 8-bit integer \<^verbatim>\<open>C\<close>, a 16-bit integer \<^verbatim>\<open>S\<close> that
  accepts \<^verbatim>\<open>!\<close> and an endianness, a UTF-8 character \<^verbatim>\<open>U\<close>, a BER integer \<^verbatim>\<open>w\<close>,
  and a letter \<^verbatim>\<open>%\<close> that is known and valid for neither variant.
\<close>

definition example_table :: pack_table where
  "example_table version c =
     (if c = CHR ''C'' then
        Some \<lparr>entry_type = YP_PACK_INTEGER, entry_signed = YP_PACK_UNSIGNED,
              entry_endian = YP_PACK_AGNOSTIC_ENDIAN, entry_size = YP_PACK_SIZE_8,
              entry_length_type = YP_PACK_LENGTH_FIXED, entry_length = 1,
              entry_variants = [YP_PACK_VARIANT_PACK, YP_PACK_VARIANT_UNPACK],
              entry_bang = None, entry_endian_override = False\<rparr>
      else if c = CHR ''S'' then
        Some \<lparr>entry_type = YP_PACK_INTEGER, entry_signed = YP_PACK_UNSIGNED,
              entry_endian = YP_PACK_NATIVE_ENDIAN, entry_size = YP_PACK_SIZE_16,
              entry_length_type = YP_PACK_LENGTH_FIXED, entry_length = 1,
              entry_variants = [YP_PACK_VARIANT_PACK, YP_PACK_VARIANT_UNPACK],
              entry_bang = Some YP_PACK_SIZE_SHORT, entry_endian_override = True\<rparr>
      else if c = CHR ''U'' then
        Some \<lparr>entry_type = YP_PACK_UTF8, entry_signed = YP_PACK_SIGNED_NA,
              entry_endian = YP_PACK_ENDIAN_NA, entry_size = YP_PACK_SIZE_NA,
              entry_length_type = YP_PACK_LENGTH_FIXED, entry_length = 1,
              entry_variants = [YP_PACK_VARIANT_PACK, YP_PACK_VARIANT_UNPACK],
              entry_bang = None, entry_endian_override = False\<rparr>
      else if c = CHR ''w'' then
        Some \<lparr>entry_type = YP_PACK_BER, entry_signed = YP_PACK_SIGNED_NA,
              entry_endian = YP_PACK_ENDIAN_NA, entry_size = YP_PACK_SIZE_NA,
              entry_length_type = YP_PACK_LENGTH_FIXED, entry_length = 1,
              entry_variants = [YP_PACK_VARIANT_PACK, YP_PACK_VARIANT_UNPACK],
              entry_bang = None, entry_endian_override = False\<rparr>
      else if c = CHR ''%'' then
        Some \<lparr>entry_type = YP_PACK_NULL, entry_signed = YP_PACK_SIGNED_NA,
              entry_endian = YP_PACK_ENDIAN_NA, entry_size = YP_PACK_SIZE_NA,
              entry_length_type = YP_PACK_LENGTH_NA, entry_length = 0,
              entry_variants = [],
              entry_bang = None, entry_endian_override = False\<rparr>
      else None)"

text \<open>
  Modelled from the spec: the encoding a directive forces (section 4.3), read from the
  type symbol of the directive object.
\<close>

definition directive_forced_encoding :: "rb_value \<Rightarrow> yp_pack_encoding option" where
  "directive_forced_encoding d =
     (if directive_type_symbol d = pack_type_to_symbol YP_PACK_UTF8
        then Some YP_PACK_ENCODING_UTF_8
      else if directive_type_symbol d = pack_type_to_symbol YP_PACK_BER
        then Some YP_PACK_ENCODING_ASCII_8BIT
      else None)"

text \<open>
  Modelled from the spec: the encoding that the last encoding-forcing directive of a
  sequence determines (section 4.3); it is \<open>Unspecified\<close>, the start value, when no
  directive of the sequence forces one.
\<close>

definition last_forced_encoding :: "rb_value list \<Rightarrow> yp_pack_encoding" where
  "last_forced_encoding ds =
     (let forced = List.map_filter directive_forced_encoding ds
      in if forced = [] then YP_PACK_ENCODING_START else last forced)"

section \<open>Properties of the decode loop\<close>

subsection \<open>Runs and outcomes of the loop\<close>

lemma pack_parse_loop_iterates:
  "iterates R version variant vs vv fmt st st' \<Longrightarrow>
   pack_parse_loop R version variant vs vv fmt st = pack_parse_loop R version variant vs vv fmt st'"
proof (induction rule: iterates.induct)
  case (iterates_start s)
  show ?case by simp
next
  case (iterates_next s s' s'')
  have "pack_parse_loop R version variant vs vv fmt s' =
        pack_parse_loop R version variant vs vv fmt s''"
    using iterates_next.hyps(2,3) by (subst pack_parse_loop.simps) simp
  with iterates_next.IH show ?case by simp
qed

lemma pack_parse_valid_arguments:
  "pack_parse R v3_2_0_symbol (symbol_of_variant variant) (RString fmt) =
     (case pack_parse_loop R YP_PACK_VERSION_3_2_0 variant v3_2_0_symbol
             (symbol_of_variant variant) fmt scan_start of
        None \<Rightarrow> None
      | Some (Inl a) \<Rightarrow> Some (Inl a)
      | Some (Inr st) \<Rightarrow> Some (Inr (pack_format_new st)))"
  by (cases variant) (simp_all add: pack_parse_def StringValue_def pack_symbol_def unpack_symbol_def)

lemma pack_parse_loop_abort:
  "format st < length fmt \<Longrightarrow>
   parse_result_switch (parse_result (R version variant fmt (format st) (encoding st))) = Some a \<Longrightarrow>
   pack_parse_loop R version variant vs vv fmt st = Some (Inl a)"
  by (subst pack_parse_loop.simps) (simp add: pack_parse_body_def Let_def)

lemma pack_parse_loop_end:
  "\<not> format st < length fmt \<Longrightarrow>
   pack_parse_loop R version variant vs vv fmt st = Some (Inr st)"
  by (subst pack_parse_loop.simps) simp

lemma pack_parse_abort:
  assumes "iterates R YP_PACK_VERSION_3_2_0 variant v3_2_0_symbol (symbol_of_variant variant)
             fmt scan_start st"
    and "format st < length fmt"
    and "parse_result_switch
           (parse_result (R YP_PACK_VERSION_3_2_0 variant fmt (format st) (encoding st))) = Some a"
  shows "pack_parse R v3_2_0_symbol (symbol_of_variant variant) (RString fmt) = Some (Inl a)"
  using pack_parse_loop_iterates [OF assms(1)]
    pack_parse_loop_abort [where R = R and st = st and fmt = fmt, OF assms(2,3)]
  by (simp add: pack_parse_valid_arguments)

lemma parse_result_switch_fatal:
  "code \<noteq> YP_PACK_OK \<Longrightarrow> \<exists>a. parse_result_switch code = Some a"
  by (cases code) simp_all

lemma iterates_first:
  "iterates R version variant vs vv fmt st1 st' \<Longrightarrow>
   format st < length fmt \<Longrightarrow>
   pack_parse_body R version variant vs vv fmt st = Next st1 \<Longrightarrow>
   iterates R version variant vs vv fmt st st'"
proof (induction rule: iterates.induct)
  case (iterates_start s)
  show ?case
    by (rule iterates_next [OF iterates.iterates_start iterates_start.prems])
next
  case (iterates_next s s' s'')
  from iterates_next.IH [OF iterates_next.prems] iterates_next.hyps(2,3) show ?case
    by (rule iterates.iterates_next)
qed

lemma iterates_trans:
  assumes "iterates R version variant vs vv fmt st st'"
    and "iterates R version variant vs vv fmt st' st''"
  shows "iterates R version variant vs vv fmt st st''"
  using assms(2,1)
proof (induction rule: iterates.induct)
  case (iterates_start s)
  then show ?case .
next
  case (iterates_next s s' s'')
  from iterates_next.IH [OF iterates_next.prems] iterates_next.hyps(2,3) show ?case
    by (rule iterates.iterates_next)
qed


lemma pack_parse_loop_result:
  assumes "pack_parse_loop R version variant vs vv fmt st = Some y"
  shows "\<exists>st'. iterates R version variant vs vv fmt st st' \<and>
               loop_stops R version variant vs vv fmt st' y"
proof (rule pack_parse_loop.raw_induct
    [where P = "\<lambda>R version variant vs vv fmt st y.
                  \<exists>st'. iterates R version variant vs vv fmt st st' \<and>
                        loop_stops R version variant vs vv fmt st' y", OF _ assms])
  fix loop R version variant vs vv fmt st y
  assume IH: "\<And>R version variant vs vv fmt st y.
           loop R version variant vs vv fmt st = Some y \<Longrightarrow>
           \<exists>st'. iterates R version variant vs vv fmt st st' \<and>
                 loop_stops R version variant vs vv fmt st' y"
    and eq: "(if format st < length fmt
              then case pack_parse_body R version variant vs vv fmt st of
                     Abort a \<Rightarrow> Some (Inl a)
                   | Break st' \<Rightarrow> Some (Inr st')
                   | Next st' \<Rightarrow> loop R version variant vs vv fmt st'
              else Some (Inr st)) = Some y"
  have here: "loop_stops R version variant vs vv fmt st y \<Longrightarrow>
              \<exists>st'. iterates R version variant vs vv fmt st st' \<and>
                    loop_stops R version variant vs vv fmt st' y"
    using iterates_start [of R version variant vs vv fmt st] by (rule_tac x = st in exI) simp
  show "\<exists>st'. iterates R version variant vs vv fmt st st' \<and>
             loop_stops R version variant vs vv fmt st' y"
  proof (cases "format st < length fmt")
    case False
    with eq have "y = Inr st" by simp
    with False show ?thesis
      by (intro here) (simp add: loop_stops_def)
  next
    case True
    show ?thesis
    proof (cases "pack_parse_body R version variant vs vv fmt st")
      case (Abort a)
      with True eq have "y = Inl a" by simp
      with True Abort show ?thesis
        by (intro here) (simp add: loop_stops_def)
    next
      case (Break s)
      with True eq have "y = Inr s" by simp
      with True Break show ?thesis
        by (intro here) (simp add: loop_stops_def)
    next
      case (Next s)
      with True eq have "loop R version variant vs vv fmt s = Some y" by simp
      from IH [OF this] obtain st' where
        st': "iterates R version variant vs vv fmt s st'"
          "loop_stops R version variant vs vv fmt st' y"
        by (elim exE conjE)
      from iterates_first [OF st'(1) True Next] st'(2) show ?thesis
        by (rule_tac x = st' in exI) simp
    qed
  qed
qed

lemma rb_usascii_str_new_Inr:
  assumes "rb_usascii_str_new mem ptr (int e - int ptr) = Inr v"
  shows "ptr \<le> e \<and> e \<le> length mem \<and> v = RString (take (e - ptr) (drop ptr mem))"
proof -
  from assms have le: "ptr \<le> e"
    by (simp add: rb_usascii_str_new_def split: if_splits)
  then have n: "nat (int e - int ptr) = e - ptr"
    by arith
  from assms have "\<not> length mem < ptr + nat (int e - int ptr)"
    and "v = RString (take (nat (int e - int ptr)) (drop ptr mem))"
    by (simp_all add: rb_usascii_str_new_def split: if_splits)
  then have "\<not> length mem < ptr + (e - ptr)" and "v = RString (take (e - ptr) (drop ptr mem))"
    unfolding n by simp_all
  with le show ?thesis by simp
qed


lemma pack_parse_body_Next:
  assumes "pack_parse_body R version variant vs vv fmt st = Next st'"
  shows "format st \<le> format st' \<and> format st' \<le> length fmt \<and>
         format st' = format_out (R version variant fmt (format st) (encoding st)) \<and>
         encoding st' = encoding_out (R version variant fmt (format st) (encoding st)) \<and>
         parse_result (R version variant fmt (format st) (encoding st)) = YP_PACK_OK \<and>
         type_out (R version variant fmt (format st) (encoding st)) \<noteq> YP_PACK_END \<and>
         (\<exists>d. directives_array st' = directives_array st @ [d] \<and>
              directive_source d = take (format st' - format st) (drop (format st) fmt) \<and>
              directive_type_symbol d =
                pack_type_to_symbol (type_out (R version variant fmt (format st) (encoding st))))"
proof -
  define r where "r = R version variant fmt (format st) (encoding st)"
  have body: "pack_parse_body R version variant vs vv fmt st =
     (case parse_result_switch (parse_result r) of
           Some a \<Rightarrow> Abort a
         | None \<Rightarrow>
             if type_out r = YP_PACK_END
             then Break (st\<lparr>format := format_out r, encoding := encoding_out r\<rparr>)
             else
               (case rb_usascii_str_new fmt (format st)
                       (int (format_out r) - int (format st)) of
                  Inl a \<Rightarrow> Abort a
                | Inr source \<Rightarrow>
                    Next \<lparr>format = format_out r,
                          encoding = encoding_out r,
                          directives_array = directives_array st @
                            [RObject rb_cYARPPackDirective
                               [vs, vv, source,
                                pack_type_to_symbol (type_out r),
                                pack_signed_to_symbol (signed_type_out r),
                                pack_endian_to_symbol (endian_out r),
                                pack_size_to_symbol (size_out r),
                                pack_length_type_to_symbol (length_type_out r),
                                LONG2NUM (length_out r)]]\<rparr>))"
    unfolding pack_parse_body_def Let_def r_def by (rule refl)
  from assms have sw: "parse_result_switch (parse_result r) = None"
    unfolding body by (cases "parse_result_switch (parse_result r)") simp_all
  then have ok: "parse_result r = YP_PACK_OK"
    by (cases "parse_result r") simp_all
  from assms sw have ne: "type_out r \<noteq> YP_PACK_END"
    unfolding body by (cases "type_out r = YP_PACK_END") simp_all
  from assms sw ne obtain src where
    src: "rb_usascii_str_new fmt (format st) (int (format_out r) - int (format st)) = Inr src"
    unfolding body
    by (cases "rb_usascii_str_new fmt (format st) (int (format_out r) - int (format st))")
       simp_all
  from assms sw ne src have st': "st' = \<lparr>format = format_out r, encoding = encoding_out r,
      directives_array = directives_array st @
        [RObject rb_cYARPPackDirective
           [vs, vv, src, pack_type_to_symbol (type_out r),
            pack_signed_to_symbol (signed_type_out r),
            pack_endian_to_symbol (endian_out r),
            pack_size_to_symbol (size_out r),
            pack_length_type_to_symbol (length_type_out r),
            LONG2NUM (length_out r)]]\<rparr>"
    unfolding body by simp
  from rb_usascii_str_new_Inr [OF src] have
    b: "format st \<le> format_out r" "format_out r \<le> length fmt"
      "src = RString (take (format_out r - format st) (drop (format st) fmt))"
    by simp_all
  show ?thesis
    unfolding r_def [symmetric] using b ok ne by (simp add: st')
qed

text \<open>The equations that evaluate a decode on a concrete format string.\<close>

lemmas decode_eval =
  pack_parse_def StringValue_def pack_parse_loop.simps scan_start_def pack_format_new_def
  pack_symbol_def unpack_symbol_def v3_2_0_symbol_def pack_parse_body_def
  yp_pack_parse_spec_def example_table_def pseudo_directive_def rb_usascii_str_new_def
  LONG2NUM_def is_space_def is_digit_def is_modifier_def decimal_def Let_def

subsection \<open>The slices of the format string\<close>

lemma spans_tile_prefix:
  "iterates R version variant vs vv fmt st st' \<Longrightarrow>
   concat (map directive_source (directives_array st)) = take (format st) fmt \<Longrightarrow>
   format st \<le> length fmt \<Longrightarrow>
   concat (map directive_source (directives_array st')) = take (format st') fmt \<and>
   format st' \<le> length fmt"
proof (induction rule: iterates.induct)
  case (iterates_start s)
  then show ?case by simp
next
  case (iterates_next s s' s'')
  from iterates_next.IH [OF iterates_next.prems]
  have pre: "concat (map directive_source (directives_array s')) = take (format s') fmt"
    by simp
  from pack_parse_body_Next [OF iterates_next.hyps(3)] obtain d where
    le: "format s' \<le> format s''" "format s'' \<le> length fmt"
    and d: "directives_array s'' = directives_array s' @ [d]"
      "directive_source d = take (format s'' - format s') (drop (format s') fmt)"
    by blast
  have "take (format s'') fmt = take (format s' + (format s'' - format s')) fmt"
    using le(1) by simp
  also have "\<dots> = take (format s') fmt @ take (format s'' - format s') (drop (format s') fmt)"
    by (rule take_add)
  finally show ?case
    using pre d le(2) by simp
qed

lemma concat_nth_slice:
  assumes "i < length xss"
  shows "xss ! i = take (length (xss ! i)) (drop (length (concat (take i xss))) (concat xss))"
proof -
  have "xss = take i xss @ xss ! i # drop (Suc i) xss"
    using assms by (rule id_take_nth_drop)
  then have "concat xss = concat (take i xss) @ xss ! i @ concat (drop (Suc i) xss)"
    by (metis concat.simps(2) concat_append)
  then show ?thesis by simp
qed

subsection \<open>Facts about the resolver of the specification\<close>

lemma resolve_modifiers_keeps:
  fixes p :: "yp_pack_out \<Rightarrow> 'a"
  assumes "\<And>v out. p (out\<lparr>parse_result := v\<rparr>) = p out"
    and "\<And>v out. p (out\<lparr>size_out := v\<rparr>) = p out"
    and "\<And>v out. p (out\<lparr>endian_out := v\<rparr>) = p out"
    and "\<And>v out. p (out\<lparr>length_type_out := v\<rparr>) = p out"
    and "\<And>v out. p (out\<lparr>length_out := v\<rparr>) = p out"
  shows "p (resolve_modifiers e x cs out) = p out"
proof (induction e x cs out rule: resolve_modifiers.induct)
  case (1 e explicit_endian out)
  show ?case by simp
next
  case (2 e explicit_endian c cs out)
  show ?case
  proof (cases "c = CHR ''!''")
    case True
    with 2(1) show ?thesis
      by (cases "entry_bang e") (simp_all add: assms)
  next
    case bang: False
    show ?thesis
    proof (cases "c = CHR ''<'' \<or> c = CHR ''>''")
      case True
      with bang 2(2) show ?thesis
        by (cases "explicit_endian \<or> \<not> entry_endian_override e") (simp_all add: assms)
    next
      case endian: False
      show ?thesis
      proof (cases "c = CHR ''*''")
        case True
        with bang endian 2(3) show ?thesis by (simp add: assms)
      next
        case star: False
        define n where "n = decimal (takeWhile is_digit (c # cs))"
        show ?thesis
        proof (cases "2 ^ 64 - 1 < n")
          case True
          with bang endian star show ?thesis
            unfolding resolve_modifiers.simps Let_def n_def [symmetric] by (simp add: assms)
        next
          case False
          from 2(4) [OF bang endian star n_def False] bang endian star False show ?thesis
            unfolding resolve_modifiers.simps Let_def n_def [symmetric] by (simp add: assms)
        qed
      qed
    qed
  qed
qed

lemma resolve_modifiers_type: "type_out (resolve_modifiers e x cs out) = type_out out"
  by (rule resolve_modifiers_keeps) simp_all

lemma resolve_modifiers_format: "format_out (resolve_modifiers e x cs out) = format_out out"
  by (rule resolve_modifiers_keeps) simp_all

lemma yp_pack_parse_spec_not_end:
  assumes "cursor < length fmt"
    and "\<forall>c e. table version c = Some e \<longrightarrow> entry_type e \<noteq> YP_PACK_END"
    and "parse_result (yp_pack_parse_spec table version variant fmt cursor enc) = YP_PACK_OK"
  shows "type_out (yp_pack_parse_spec table version variant fmt cursor enc) \<noteq> YP_PACK_END"
proof -
  from assms(1) obtain c cs where d: "drop cursor fmt = c # cs"
    by (cases "drop cursor fmt") simp_all
  show ?thesis
  proof (cases "is_space c \<or> c = CHR ''#''")
    case True
    then show ?thesis
      by (auto simp: yp_pack_parse_spec_def d pseudo_directive_def)
  next
    case False
    show ?thesis
    proof (cases "table version c")
      case None
      with False assms(3) show ?thesis
        by (simp add: yp_pack_parse_spec_def d pseudo_directive_def Let_def)
    next
      case (Some e)
      with assms(2) have "entry_type e \<noteq> YP_PACK_END" by blast
      with False Some assms(3) show ?thesis
        by (simp add: yp_pack_parse_spec_def d pseudo_directive_def Let_def
            resolve_modifiers_type split: if_splits)
    qed
  qed
qed

lemma example_table_types:
  "\<forall>c e. example_table version c = Some e \<longrightarrow> entry_type e \<noteq> YP_PACK_END"
  by (auto simp: example_table_def split: if_splits)

lemma encoding_update_last:
  "out\<lparr>encoding_out := enc, parse_result := r\<rparr> = out\<lparr>parse_result := r, encoding_out := enc\<rparr>"
  "out\<lparr>encoding_out := enc, size_out := sz\<rparr> = out\<lparr>size_out := sz, encoding_out := enc\<rparr>"
  "out\<lparr>encoding_out := enc, endian_out := en\<rparr> = out\<lparr>endian_out := en, encoding_out := enc\<rparr>"
  "out\<lparr>encoding_out := enc, length_type_out := lt\<rparr> =
     out\<lparr>length_type_out := lt, encoding_out := enc\<rparr>"
  "out\<lparr>encoding_out := enc, length_out := l\<rparr> = out\<lparr>length_out := l, encoding_out := enc\<rparr>"
  by (cases out; simp)+

lemma resolve_modifiers_encoding_update:
  "resolve_modifiers e x cs (out\<lparr>encoding_out := enc\<rparr>) =
   (resolve_modifiers e x cs out)\<lparr>encoding_out := enc\<rparr>"
proof (induction e x cs out rule: resolve_modifiers.induct)
  case (1 e explicit_endian out)
  show ?case by (simp add: encoding_update_last)
next
  case (2 e explicit_endian c cs out)
  show ?case
  proof (cases "c = CHR ''!''")
    case True
    with 2(1) show ?thesis
      by (cases "entry_bang e") (simp_all add: encoding_update_last)
  next
    case bang: False
    show ?thesis
    proof (cases "c = CHR ''<'' \<or> c = CHR ''>''")
      case True
      with bang 2(2) show ?thesis
        by (cases "explicit_endian \<or> \<not> entry_endian_override e") (simp_all add: encoding_update_last)
    next
      case endian: False
      show ?thesis
      proof (cases "c = CHR ''*''")
        case True
        with bang endian 2(3) show ?thesis by (simp add: encoding_update_last)
      next
        case star: False
        define n where "n = decimal (takeWhile is_digit (c # cs))"
        show ?thesis
        proof (cases "2 ^ 64 - 1 < n")
          case True
          with bang endian star show ?thesis
            unfolding resolve_modifiers.simps Let_def n_def [symmetric] by (simp add: encoding_update_last)
        next
          case False
          from 2(4) [OF bang endian star n_def False] bang endian star False show ?thesis
            unfolding resolve_modifiers.simps Let_def n_def [symmetric] by (simp add: encoding_update_last)
        qed
      qed
    qed
  qed
qed

text \<open>The resolver of the specification reads the running encoding only to thread it.\<close>

lemma yp_pack_parse_spec_encoding_independent:
  "(yp_pack_parse_spec table version variant fmt cursor e1)\<lparr>encoding_out := x\<rparr> =
   (yp_pack_parse_spec table version variant fmt cursor e2)\<lparr>encoding_out := x\<rparr>"
proof (cases "drop cursor fmt")
  case Nil
  then show ?thesis
    by (simp add: yp_pack_parse_spec_def pseudo_directive_def)
next
  case (Cons c cs)
  show ?thesis
  proof (cases "is_space c \<or> c = CHR ''#''")
    case True
    then show ?thesis
      by (auto simp: yp_pack_parse_spec_def Cons pseudo_directive_def)
  next
    case False
    show ?thesis
    proof (cases "table version c")
      case None
      with False show ?thesis
        by (simp add: yp_pack_parse_spec_def Cons pseudo_directive_def Let_def)
    next
      case (Some e)
      show ?thesis
      proof (cases "variant \<in> set (entry_variants e)")
        case no: False
        with False Some show ?thesis
          by (simp add: yp_pack_parse_spec_def Cons pseudo_directive_def Let_def)
      next
        case yes: True
        define base where "base =
          \<lparr>parse_result = YP_PACK_OK,
           format_out = cursor + 1 + length (takeWhile is_modifier cs),
           type_out = entry_type e, signed_type_out = entry_signed e,
           endian_out = entry_endian e, size_out = entry_size e,
           length_type_out = entry_length_type e, length_out = entry_length e,
           encoding_out = YP_PACK_ENCODING_START\<rparr>"
        define resolved where
          "resolved = resolve_modifiers e False (takeWhile is_modifier cs) base"
        have spec: "yp_pack_parse_spec table version variant fmt cursor enc =
            (if parse_result resolved = YP_PACK_OK
             then resolved\<lparr>encoding_out := thread_encoding enc (type_out resolved)\<rparr>
             else resolved\<lparr>encoding_out := enc\<rparr>)" for enc
        proof -
          have "\<lparr>parse_result = YP_PACK_OK,
                 format_out = cursor + 1 + length (takeWhile is_modifier cs),
                 type_out = entry_type e, signed_type_out = entry_signed e,
                 endian_out = entry_endian e, size_out = entry_size e,
                 length_type_out = entry_length_type e, length_out = entry_length e,
                 encoding_out = enc\<rparr> = base\<lparr>encoding_out := enc\<rparr>"
            by (simp add: base_def)
          then have "resolve_modifiers e False (takeWhile is_modifier cs)
                \<lparr>parse_result = YP_PACK_OK,
                 format_out = cursor + 1 + length (takeWhile is_modifier cs),
                 type_out = entry_type e, signed_type_out = entry_signed e,
                 endian_out = entry_endian e, size_out = entry_size e,
                 length_type_out = entry_length_type e, length_out = entry_length e,
                 encoding_out = enc\<rparr> = resolved\<lparr>encoding_out := enc\<rparr>"
            by (simp only: resolved_def resolve_modifiers_encoding_update)
          with False Some yes show ?thesis
            by (simp add: yp_pack_parse_spec_def Cons Let_def)
        qed
        show ?thesis
          by (simp add: spec)
      qed
    qed
  qed
qed

lemma yp_pack_parse_spec_threads:
  assumes "parse_result (yp_pack_parse_spec table version variant fmt cursor enc) = YP_PACK_OK"
  shows "encoding_out (yp_pack_parse_spec table version variant fmt cursor enc) =
         thread_encoding enc (type_out (yp_pack_parse_spec table version variant fmt cursor enc))"
  using assms
  by (simp add: yp_pack_parse_spec_def Let_def pseudo_directive_def
      split: list.splits option.splits if_splits)

lemma pack_type_to_symbol_UTF8:
  "pack_type_to_symbol t = pack_type_to_symbol YP_PACK_UTF8 \<longleftrightarrow> t = YP_PACK_UTF8"
  by (cases t) simp_all

lemma pack_type_to_symbol_BER:
  "pack_type_to_symbol t = pack_type_to_symbol YP_PACK_BER \<longleftrightarrow> t = YP_PACK_BER"
  by (cases t) simp_all

lemma thread_encoding_forced:
  assumes "directive_type_symbol d = pack_type_to_symbol t"
  shows "thread_encoding enc t =
           (case directive_forced_encoding d of Some e \<Rightarrow> e | None \<Rightarrow> enc)"
  unfolding directive_forced_encoding_def assms pack_type_to_symbol_UTF8 pack_type_to_symbol_BER
  by (cases t) simp_all

lemma last_forced_encoding_snoc:
  "last_forced_encoding (ds @ [d]) =
     (case directive_forced_encoding d of Some e \<Rightarrow> e | None \<Rightarrow> last_forced_encoding ds)"
  by (cases "directive_forced_encoding d")
     (simp_all add: last_forced_encoding_def List.map_filter_def Let_def)

lemma thread_encoding_not_start:
  "enc \<noteq> YP_PACK_ENCODING_START \<Longrightarrow> thread_encoding enc t \<noteq> YP_PACK_ENCODING_START"
  by (cases t) simp_all


lemma encoding_is_last_forced:
  assumes "iterates (yp_pack_parse_spec table) version variant vs vv fmt st st'"
    and "encoding st = last_forced_encoding (directives_array st)"
  shows "encoding st' = last_forced_encoding (directives_array st')"
  using assms
proof (induction rule: iterates.induct)
  case (iterates_start s)
  then show ?case by simp
next
  case (iterates_next s s' s'')
  let ?r = "yp_pack_parse_spec table version variant fmt (format s') (encoding s')"
  from pack_parse_body_Next [OF iterates_next.hyps(3)] obtain d where
    enc: "encoding s'' = encoding_out ?r"
    and ok: "parse_result ?r = YP_PACK_OK"
    and d: "directives_array s'' = directives_array s' @ [d]"
      "directive_type_symbol d = pack_type_to_symbol (type_out ?r)"
    by blast
  from yp_pack_parse_spec_threads [OF ok] enc
  have "encoding s'' = thread_encoding (encoding s') (type_out ?r)"
    by simp
  also have "\<dots> = (case directive_forced_encoding d of
                      Some e \<Rightarrow> e | None \<Rightarrow> encoding s')"
    by (rule thread_encoding_forced [OF d(2)])
  finally show ?case
    using iterates_next.IH [OF iterates_next.prems]
    by (simp add: d(1) last_forced_encoding_snoc split: option.splits)
qed

lemma encoding_never_reset:
  assumes "iterates (yp_pack_parse_spec table) version variant vs vv fmt st st'"
    and "encoding st \<noteq> YP_PACK_ENCODING_START"
  shows "encoding st' \<noteq> YP_PACK_ENCODING_START"
  using assms
proof (induction rule: iterates.induct)
  case (iterates_start s)
  then show ?case by simp
next
  case (iterates_next s s' s'')
  let ?r = "yp_pack_parse_spec table version variant fmt (format s') (encoding s')"
  from pack_parse_body_Next [OF iterates_next.hyps(3)] have
    enc: "encoding s'' = encoding_out ?r"
    and ok: "parse_result ?r = YP_PACK_OK"
    by simp_all
  from yp_pack_parse_spec_threads [OF ok] enc
  have "encoding s'' = thread_encoding (encoding s') (type_out ?r)"
    by simp
  with thread_encoding_not_start [OF iterates_next.IH [OF iterates_next.prems]]
  show ?case by simp
qed

subsection \<open>The loop returns\<close>

text \<open>
  A resolver that moves the cursor forward whenever it resolves a span makes the loop
  return.
\<close>

lemma pack_parse_loop_returns:
  assumes "\<forall>cursor enc. cursor < length fmt \<longrightarrow>
             parse_result (R version variant fmt cursor enc) = YP_PACK_OK \<longrightarrow>
             cursor < format_out (R version variant fmt cursor enc)"
  shows "\<exists>y. pack_parse_loop R version variant vs vv fmt st = Some y"
proof (induction "length fmt - format st" arbitrary: st rule: less_induct)
  case less
  show ?case
  proof (cases "format st < length fmt")
    case False
    then show ?thesis
      by (simp add: pack_parse_loop_end)
  next
    case True
    show ?thesis
    proof (cases "pack_parse_body R version variant vs vv fmt st")
      case (Abort a)
      with True show ?thesis
        by (subst pack_parse_loop.simps) simp
    next
      case (Break s)
      with True show ?thesis
        by (subst pack_parse_loop.simps) simp
    next
      case (Next s)
      from pack_parse_body_Next [OF Next] have
        s: "format s = format_out (R version variant fmt (format st) (encoding st))"
        and ok: "parse_result (R version variant fmt (format st) (encoding st)) = YP_PACK_OK"
        by simp_all
      from assms True ok have "format st < format s"
        unfolding s by blast
      with True have "length fmt - format s < length fmt - format st"
        by arith
      from less [OF this] obtain y where
        "pack_parse_loop R version variant vs vv fmt s = Some y"
        by blast
      with True Next show ?thesis
        by (subst pack_parse_loop.simps) simp
    qed
  qed
qed

lemma yp_pack_parse_spec_advances:
  assumes "cursor < length fmt"
  shows "cursor < format_out (yp_pack_parse_spec table version variant fmt cursor enc)"
proof -
  from assms obtain c cs where d: "drop cursor fmt = c # cs"
    by (cases "drop cursor fmt") simp_all
  show ?thesis
    by (simp add: yp_pack_parse_spec_def d pseudo_directive_def Let_def
        resolve_modifiers_format split: option.splits)
qed

lemma pack_parse_spec_returns:
  "pack_parse (yp_pack_parse_spec table) version_symbol variant_symbol format_string \<noteq> None"
proof -
  have "\<exists>y. pack_parse_loop (yp_pack_parse_spec table) version variant vs vv fmt st = Some y"
    for version variant vs vv fmt st
    by (rule pack_parse_loop_returns) (simp add: yp_pack_parse_spec_advances)
  then have loop: "pack_parse_loop (yp_pack_parse_spec table) version variant vs vv fmt st = None
      \<longleftrightarrow> False"
    for version variant vs vv fmt st
    by simp
  show ?thesis
    by (simp add: pack_parse_def loop split: sum.splits option.splits)
qed

subsection \<open>Runs given by the answers of the resolver\<close>

lemma pack_parse_body_resolved:
  assumes "r = R version variant fmt (format st) (encoding st)"
    and "parse_result r = YP_PACK_OK"
    and "type_out r \<noteq> YP_PACK_END"
    and "format st \<le> format_out r" and "format_out r \<le> length fmt"
  shows "pack_parse_body R version variant vs vv fmt st =
           Next \<lparr>format = format_out r, encoding = encoding_out r,
                 directives_array =
                   directives_array st @ directive_objects vs vv fmt (format st) [r]\<rparr>"
proof -
  have n: "nat (int (format_out r) - int (format st)) = format_out r - format st"
    using assms(4) by arith
  have "rb_usascii_str_new fmt (format st) (int (format_out r) - int (format st)) =
          Inr (RString (take (format_out r - format st) (drop (format st) fmt)))"
    unfolding rb_usascii_str_new_def n using assms(4,5) by simp
  with assms(2,3) show ?thesis
    unfolding pack_parse_body_def Let_def assms(1) [symmetric]
    by (simp add: LONG2NUM_def)
qed

lemma resolved_spans_iterates:
  "resolved_spans R version variant fmt cursor enc rs \<Longrightarrow>
   iterates R version variant vs vv fmt
     \<lparr>format = cursor, encoding = enc, directives_array = acc\<rparr>
     \<lparr>format = cursor_after cursor rs, encoding = encoding_after enc rs,
      directives_array = acc @ directive_objects vs vv fmt cursor rs\<rparr>"
proof (induction rs arbitrary: cursor enc acc)
  case Nil
  show ?case by (simp add: iterates_start)
next
  case (Cons r rs)
  let ?st = "\<lparr>format = cursor, encoding = enc, directives_array = acc\<rparr>"
  let ?st1 = "\<lparr>format = format_out r, encoding = encoding_out r,
               directives_array = acc @ directive_objects vs vv fmt cursor [r]\<rparr>"
  from Cons.prems have r: "r = R version variant fmt (format ?st) (encoding ?st)"
    and ok: "parse_result r = YP_PACK_OK" and ne: "type_out r \<noteq> YP_PACK_END"
    and le: "format ?st \<le> format_out r" "format_out r \<le> length fmt"
    and lt: "format ?st < length fmt"
    and rest: "resolved_spans R version variant fmt (format_out r) (encoding_out r) rs"
    by auto
  have step: "pack_parse_body R version variant vs vv fmt ?st = Next ?st1"
    using pack_parse_body_resolved
            [where R = R and st = ?st and r = r and version = version and variant = variant
               and fmt = fmt and vs = vs and vv = vv, OF r ok ne le]
    by simp
  have "iterates R version variant vs vv fmt ?st1
     \<lparr>format = cursor_after (format_out r) rs, encoding = encoding_after (encoding_out r) rs,
      directives_array =
        (acc @ directive_objects vs vv fmt cursor [r]) @
        directive_objects vs vv fmt (format_out r) rs\<rparr>"
    by (rule Cons.IH [OF rest])
  from iterates_first [OF this lt step] show ?case by simp
qed

subsection \<open>The claims\<close>

text \<open>
  C9. Decoding the empty format string with the supported version and a valid variant
  returns a format object whose directive array is empty and whose encoding is nil, for
  every resolver: the loop body never runs.
\<close>

theorem pack_parse_empty_format:
  "pack_parse yp_pack_parse v3_2_0_symbol pack_symbol (RString []) =
     Some (Inr (RObject rb_cYARPPackFormat [RArray [], Qnil]))
   \<and> pack_parse yp_pack_parse v3_2_0_symbol unpack_symbol (RString []) =
     Some (Inr (RObject rb_cYARPPackFormat [RArray [], Qnil]))"
  by (simp add: pack_parse_def StringValue_def pack_parse_loop.simps scan_start_def
      pack_format_new_def pack_symbol_def unpack_symbol_def)

text \<open>
  C1. When the decode has reached a span for which the resolver returns a result code
  other than \<open>YP_PACK_OK\<close>, the iteration aborts at that span: the body ends in the abort
  that the switch selects for the code, builds no directive for the span and calls the
  resolver no further, and the whole call returns that one abort instead of any format
  object. This holds for every resolver, format string and variant.
\<close>

theorem pack_parse_aborts_at_failing_span:
  assumes "iterates R YP_PACK_VERSION_3_2_0 variant v3_2_0_symbol (symbol_of_variant variant)
             fmt scan_start st"
    and "format st < length fmt"
    and "parse_result (R YP_PACK_VERSION_3_2_0 variant fmt (format st) (encoding st))
           \<noteq> YP_PACK_OK"
  shows "\<exists>a. parse_result_switch
               (parse_result (R YP_PACK_VERSION_3_2_0 variant fmt (format st) (encoding st)))
                 = Some a
             \<and> pack_parse_body R YP_PACK_VERSION_3_2_0 variant v3_2_0_symbol
                 (symbol_of_variant variant) fmt st = Abort a
             \<and> pack_parse R v3_2_0_symbol (symbol_of_variant variant) (RString fmt)
                 = Some (Inl a)"
proof -
  from assms(3) obtain a where a:
    "parse_result_switch
       (parse_result (R YP_PACK_VERSION_3_2_0 variant fmt (format st) (encoding st))) = Some a"
    using parse_result_switch_fatal by blast
  have "pack_parse_body R YP_PACK_VERSION_3_2_0 variant v3_2_0_symbol
          (symbol_of_variant variant) fmt st = Abort a"
    using a by (simp add: pack_parse_body_def Let_def)
  moreover have "pack_parse R v3_2_0_symbol (symbol_of_variant variant) (RString fmt)
                   = Some (Inl a)"
    using assms(1,2) a by (rule pack_parse_abort)
  ultimately show ?thesis using a by blast
qed



theorem pack_parse_aborts_at_failing_span_witness:
  "iterates (yp_pack_parse_spec example_table) YP_PACK_VERSION_3_2_0 YP_PACK_VARIANT_PACK
     v3_2_0_symbol pack_symbol ''Cy'' scan_start
     \<lparr>format = 1, encoding = YP_PACK_ENCODING_START,
      directives_array =
        [RObject rb_cYARPPackDirective
           [v3_2_0_symbol, pack_symbol, RString ''C'', RSymbol ''INTEGER'',
            RSymbol ''UNSIGNED'', RSymbol ''AGNOSTIC_ENDIAN'', RSymbol ''SIZE_8'',
            RSymbol ''LENGTH_FIXED'', RInteger 1]]\<rparr>
   \<and> parse_result (yp_pack_parse_spec example_table YP_PACK_VERSION_3_2_0
         YP_PACK_VARIANT_PACK ''Cy'' 1 YP_PACK_ENCODING_START)
       = YP_PACK_ERROR_UNKNOWN_DIRECTIVE
   \<and> pack_parse (yp_pack_parse_spec example_table) v3_2_0_symbol pack_symbol (RString ''Cy'')
       = Some (Inl (rb_raise rb_eArgError ''unsupported directive''))"
proof -
  let ?R = "yp_pack_parse_spec example_table"
  let ?st = "\<lparr>format = 1, encoding = YP_PACK_ENCODING_START,
      directives_array =
        [RObject rb_cYARPPackDirective
           [v3_2_0_symbol, pack_symbol, RString ''C'', RSymbol ''INTEGER'',
            RSymbol ''UNSIGNED'', RSymbol ''AGNOSTIC_ENDIAN'', RSymbol ''SIZE_8'',
            RSymbol ''LENGTH_FIXED'', RInteger 1]]\<rparr>"
  have step: "pack_parse_body ?R YP_PACK_VERSION_3_2_0 YP_PACK_VARIANT_PACK v3_2_0_symbol
                pack_symbol ''Cy'' scan_start = Next ?st"
    by (simp add: decode_eval)
  have run: "iterates ?R YP_PACK_VERSION_3_2_0 YP_PACK_VARIANT_PACK v3_2_0_symbol
               (symbol_of_variant YP_PACK_VARIANT_PACK) ''Cy'' scan_start ?st"
    using iterates_next [OF iterates_start _ step] by (simp add: scan_start_def)
  have code: "parse_result (?R YP_PACK_VERSION_3_2_0 YP_PACK_VARIANT_PACK ''Cy'' 1
                YP_PACK_ENCODING_START) = YP_PACK_ERROR_UNKNOWN_DIRECTIVE"
    by (simp add: decode_eval)
  from pack_parse_aborts_at_failing_span [OF run] code
  have "pack_parse ?R v3_2_0_symbol pack_symbol (RString ''Cy'')
          = Some (Inl (rb_raise rb_eArgError ''unsupported directive''))"
    by auto
  with run code show ?thesis by simp
qed

text \<open>
  C6. When the successive resolver calls on a format string all resolve their spans and
  the last one leaves the cursor at the end of input, the call returns a format object and
  nothing else: its directive array holds one directive object per resolved span, in scan
  order (the object of the first span first), and its encoding is the one the last
  resolver call left, nil for the start value and otherwise the ASCII-8BIT, US-ASCII or
  UTF-8 encoding object. This holds for every resolver, format string and variant.
\<close>

theorem pack_parse_returns_directives_in_scan_order:
  assumes "resolved_spans R YP_PACK_VERSION_3_2_0 variant fmt 0 YP_PACK_ENCODING_START rs"
    and "length fmt \<le> cursor_after 0 rs"
  shows "pack_parse R v3_2_0_symbol (symbol_of_variant variant) (RString fmt) =
           Some (Inr (RObject rb_cYARPPackFormat
             [RArray (directive_objects v3_2_0_symbol (symbol_of_variant variant) fmt 0 rs),
              (case encoding_after YP_PACK_ENCODING_START rs of
                 YP_PACK_ENCODING_START \<Rightarrow> Qnil
               | YP_PACK_ENCODING_ASCII_8BIT \<Rightarrow> REncoding ASCII_8BIT
               | YP_PACK_ENCODING_US_ASCII \<Rightarrow> REncoding US_ASCII
               | YP_PACK_ENCODING_UTF_8 \<Rightarrow> REncoding UTF_8)]))"
proof -
  let ?vv = "symbol_of_variant variant"
  let ?end = "\<lparr>format = cursor_after 0 rs,
               encoding = encoding_after YP_PACK_ENCODING_START rs,
               directives_array = directive_objects v3_2_0_symbol ?vv fmt 0 rs\<rparr>"
  have run: "iterates R YP_PACK_VERSION_3_2_0 variant v3_2_0_symbol ?vv fmt scan_start ?end"
    using resolved_spans_iterates [OF assms(1), of v3_2_0_symbol ?vv "[]"]
    by (simp add: scan_start_def)
  from assms(2) have "\<not> format ?end < length fmt" by simp
  then have "pack_parse_loop R YP_PACK_VERSION_3_2_0 variant v3_2_0_symbol ?vv fmt ?end
               = Some (Inr ?end)"
    by (rule pack_parse_loop_end)
  with pack_parse_loop_iterates [OF run]
  have "pack_parse R v3_2_0_symbol ?vv (RString fmt) = Some (Inr (pack_format_new ?end))"
    by (simp add: pack_parse_valid_arguments)
  then show ?thesis
    by (cases "encoding_after YP_PACK_ENCODING_START rs") (simp_all add: pack_format_new_def)
qed

theorem pack_parse_returns_directives_in_scan_order_witness:
  "resolved_spans (yp_pack_parse_spec example_table) YP_PACK_VERSION_3_2_0
     YP_PACK_VARIANT_UNPACK ''wU'' 0 YP_PACK_ENCODING_START
     [\<lparr>parse_result = YP_PACK_OK, format_out = 1, type_out = YP_PACK_BER,
       signed_type_out = YP_PACK_SIGNED_NA, endian_out = YP_PACK_ENDIAN_NA,
       size_out = YP_PACK_SIZE_NA, length_type_out = YP_PACK_LENGTH_FIXED, length_out = 1,
       encoding_out = YP_PACK_ENCODING_ASCII_8BIT\<rparr>,
      \<lparr>parse_result = YP_PACK_OK, format_out = 2, type_out = YP_PACK_UTF8,
       signed_type_out = YP_PACK_SIGNED_NA, endian_out = YP_PACK_ENDIAN_NA,
       size_out = YP_PACK_SIZE_NA, length_type_out = YP_PACK_LENGTH_FIXED, length_out = 1,
       encoding_out = YP_PACK_ENCODING_UTF_8\<rparr>]
   \<and> pack_parse (yp_pack_parse_spec example_table) v3_2_0_symbol unpack_symbol
       (RString ''wU'') =
     Some (Inr (RObject rb_cYARPPackFormat
       [RArray
          [RObject rb_cYARPPackDirective
             [v3_2_0_symbol, unpack_symbol, RString ''w'', RSymbol ''BER'',
              RSymbol ''SIGNED_NA'', RSymbol ''ENDIAN_NA'', RSymbol ''SIZE_NA'',
              RSymbol ''LENGTH_FIXED'', RInteger 1],
           RObject rb_cYARPPackDirective
             [v3_2_0_symbol, unpack_symbol, RString ''U'', RSymbol ''UTF8'',
              RSymbol ''SIGNED_NA'', RSymbol ''ENDIAN_NA'', RSymbol ''SIZE_NA'',
              RSymbol ''LENGTH_FIXED'', RInteger 1]],
        REncoding UTF_8]))"
proof -
  let ?R = "yp_pack_parse_spec example_table"
  let ?rs = "[\<lparr>parse_result = YP_PACK_OK, format_out = 1, type_out = YP_PACK_BER,
       signed_type_out = YP_PACK_SIGNED_NA, endian_out = YP_PACK_ENDIAN_NA,
       size_out = YP_PACK_SIZE_NA, length_type_out = YP_PACK_LENGTH_FIXED, length_out = 1,
       encoding_out = YP_PACK_ENCODING_ASCII_8BIT\<rparr>,
      \<lparr>parse_result = YP_PACK_OK, format_out = 2, type_out = YP_PACK_UTF8,
       signed_type_out = YP_PACK_SIGNED_NA, endian_out = YP_PACK_ENDIAN_NA,
       size_out = YP_PACK_SIZE_NA, length_type_out = YP_PACK_LENGTH_FIXED, length_out = 1,
       encoding_out = YP_PACK_ENCODING_UTF_8\<rparr>]"
  have r1: "?R YP_PACK_VERSION_3_2_0 YP_PACK_VARIANT_UNPACK ''wU'' 0 YP_PACK_ENCODING_START =
      \<lparr>parse_result = YP_PACK_OK, format_out = 1, type_out = YP_PACK_BER,
       signed_type_out = YP_PACK_SIGNED_NA, endian_out = YP_PACK_ENDIAN_NA,
       size_out = YP_PACK_SIZE_NA, length_type_out = YP_PACK_LENGTH_FIXED, length_out = 1,
       encoding_out = YP_PACK_ENCODING_ASCII_8BIT\<rparr>"
    by (simp add: yp_pack_parse_spec_def example_table_def pseudo_directive_def is_space_def
        is_digit_def is_modifier_def Let_def)
  have r2: "?R YP_PACK_VERSION_3_2_0 YP_PACK_VARIANT_UNPACK ''wU'' 1
              YP_PACK_ENCODING_ASCII_8BIT =
      \<lparr>parse_result = YP_PACK_OK, format_out = 2, type_out = YP_PACK_UTF8,
       signed_type_out = YP_PACK_SIGNED_NA, endian_out = YP_PACK_ENDIAN_NA,
       size_out = YP_PACK_SIZE_NA, length_type_out = YP_PACK_LENGTH_FIXED, length_out = 1,
       encoding_out = YP_PACK_ENCODING_UTF_8\<rparr>"
    by (simp add: yp_pack_parse_spec_def example_table_def pseudo_directive_def is_space_def
        is_digit_def is_modifier_def Let_def)
  have spans: "resolved_spans ?R YP_PACK_VERSION_3_2_0 YP_PACK_VARIANT_UNPACK ''wU'' 0
                 YP_PACK_ENCODING_START ?rs"
    by (simp add: r1 r2 r2 [unfolded One_nat_def])
  have at_end: "length ''wU'' \<le> cursor_after 0 ?rs"
    by simp
  from pack_parse_returns_directives_in_scan_order [OF spans at_end]
  have result: "pack_parse ?R v3_2_0_symbol unpack_symbol (RString ''wU'') =
     Some (Inr (RObject rb_cYARPPackFormat
       [RArray
          [RObject rb_cYARPPackDirective
             [v3_2_0_symbol, unpack_symbol, RString ''w'', RSymbol ''BER'',
              RSymbol ''SIGNED_NA'', RSymbol ''ENDIAN_NA'', RSymbol ''SIZE_NA'',
              RSymbol ''LENGTH_FIXED'', RInteger 1],
           RObject rb_cYARPPackDirective
             [v3_2_0_symbol, unpack_symbol, RString ''U'', RSymbol ''UTF8'',
              RSymbol ''SIGNED_NA'', RSymbol ''ENDIAN_NA'', RSymbol ''SIZE_NA'',
              RSymbol ''LENGTH_FIXED'', RInteger 1]],
        REncoding UTF_8]))"
    by simp
  from spans result show ?thesis
    by (rule conjI)
qed

text \<open>
  C10. A result code other than \<open>YP_PACK_OK\<close> leaves the call as follows: the unknown
  and the unsupported directive raise an ArgumentError; length too big, bang not allowed
  and double endian raise a RangeError; every other code ends in \<^verbatim>\<open>rb_bug\<close>.
\<close>

theorem decode_errors_raise_two_exception_classes:
  assumes "iterates R YP_PACK_VERSION_3_2_0 variant v3_2_0_symbol (symbol_of_variant variant)
             fmt scan_start st"
    and "format st < length fmt"
    and "parse_result (R YP_PACK_VERSION_3_2_0 variant fmt (format st) (encoding st)) = code"
    and "code \<noteq> YP_PACK_OK"
  shows "pack_parse R v3_2_0_symbol (symbol_of_variant variant) (RString fmt) =
           Some (Inl
             (if code = YP_PACK_ERROR_UNKNOWN_DIRECTIVE
                 \<or> code = YP_PACK_ERROR_UNSUPPORTED_DIRECTIVE
              then rb_raise rb_eArgError ''unsupported directive''
              else if code = YP_PACK_ERROR_LENGTH_TOO_BIG
              then rb_raise rb_eRangeError ''pack length too big''
              else if code = YP_PACK_ERROR_BANG_NOT_ALLOWED
              then rb_raise rb_eRangeError ''bang not allowed''
              else if code = YP_PACK_ERROR_DOUBLE_ENDIAN
              then rb_raise rb_eRangeError ''double endian''
              else rb_bug ''parse result''))"
proof -
  have "parse_result_switch code =
          Some (if code = YP_PACK_ERROR_UNKNOWN_DIRECTIVE
                   \<or> code = YP_PACK_ERROR_UNSUPPORTED_DIRECTIVE
                then rb_raise rb_eArgError ''unsupported directive''
                else if code = YP_PACK_ERROR_LENGTH_TOO_BIG
                then rb_raise rb_eRangeError ''pack length too big''
                else if code = YP_PACK_ERROR_BANG_NOT_ALLOWED
                then rb_raise rb_eRangeError ''bang not allowed''
                else if code = YP_PACK_ERROR_DOUBLE_ENDIAN
                then rb_raise rb_eRangeError ''double endian''
                else rb_bug ''parse result'')"
    using assms(4) by (cases code) simp_all
  with assms(3) show ?thesis
    by (intro pack_parse_abort [OF assms(1,2)]) simp
qed

theorem decode_errors_raise_two_exception_classes_witness:
  "parse_result (yp_pack_parse_spec example_table YP_PACK_VERSION_3_2_0 YP_PACK_VARIANT_PACK
       ''C<'' 0 YP_PACK_ENCODING_START) = YP_PACK_ERROR_DOUBLE_ENDIAN
   \<and> pack_parse (yp_pack_parse_spec example_table) v3_2_0_symbol pack_symbol (RString ''C<'')
       = Some (Inl (rb_raise rb_eRangeError ''double endian''))"
proof -
  let ?R = "yp_pack_parse_spec example_table"
  have code: "parse_result (?R YP_PACK_VERSION_3_2_0 YP_PACK_VARIANT_PACK ''C<''
                (format scan_start) (encoding scan_start)) = YP_PACK_ERROR_DOUBLE_ENDIAN"
    by (simp add: decode_eval)
  have lt: "format scan_start < length ''C<''"
    by (simp add: scan_start_def)
  from decode_errors_raise_two_exception_classes
         [of ?R YP_PACK_VARIANT_PACK "''C<''" scan_start YP_PACK_ERROR_DOUBLE_ENDIAN,
          OF iterates_start lt code] code
  show ?thesis by (simp add: scan_start_def)
qed

text \<open>
  C5. When a decode succeeds, the strings cut out for the emitted directives are
  consecutive slices of the format string in scan order: each starts where the one
  before ended, their concatenation is the whole format string, and their lengths add
  up to its length. The resolver is a parameter; the one thing required of it is that it
  does not report the end of input (type \<open>YP_PACK_END\<close>) while bytes remain, which is the
  scanner's contract in section 4.1 of the specification.
\<close>

theorem directive_spans_tile_the_format_string:
  assumes "\<forall>cursor enc. cursor < length fmt \<longrightarrow>
             parse_result (R YP_PACK_VERSION_3_2_0 variant fmt cursor enc) = YP_PACK_OK \<longrightarrow>
             type_out (R YP_PACK_VERSION_3_2_0 variant fmt cursor enc) \<noteq> YP_PACK_END"
    and "pack_parse R v3_2_0_symbol (symbol_of_variant variant) (RString fmt)
           = Some (Inr result)"
  shows "\<exists>ds e. result = RObject rb_cYARPPackFormat [RArray ds, e] \<and>
           concat (map directive_source ds) = fmt \<and>
           sum_list (map (length \<circ> directive_source) ds) = length fmt \<and>
           (\<forall>i<length ds.
              directive_source (ds ! i) =
                take (length (directive_source (ds ! i)))
                  (drop (sum_list (map (length \<circ> directive_source) (take i ds))) fmt))"
proof -
  let ?loop = "pack_parse_loop R YP_PACK_VERSION_3_2_0 variant v3_2_0_symbol
                 (symbol_of_variant variant) fmt scan_start"
  from assms(2) obtain st where
    loop: "?loop = Some (Inr st)" and result: "result = pack_format_new st"
    unfolding pack_parse_valid_arguments
    by (cases ?loop) (auto split: sum.splits)
  from pack_parse_loop_result [OF loop] obtain st' where
    run: "iterates R YP_PACK_VERSION_3_2_0 variant v3_2_0_symbol (symbol_of_variant variant)
            fmt scan_start st'"
    and stop: "loop_stops R YP_PACK_VERSION_3_2_0 variant v3_2_0_symbol
                 (symbol_of_variant variant) fmt st' (Inr st)"
    by blast
  have at_end: "\<not> format st' < length fmt"
  proof
    assume lt: "format st' < length fmt"
    let ?r = "R YP_PACK_VERSION_3_2_0 variant fmt (format st') (encoding st')"
    from stop lt obtain s where
      brk: "pack_parse_body R YP_PACK_VERSION_3_2_0 variant v3_2_0_symbol
              (symbol_of_variant variant) fmt st' = Break s"
      by (auto simp: loop_stops_def split: iteration.splits)
    then have sw: "parse_result_switch (parse_result ?r) = None"
      by (cases "parse_result_switch (parse_result ?r)")
         (simp_all add: pack_parse_body_def Let_def)
    then have ok: "parse_result ?r = YP_PACK_OK"
      by (cases "parse_result ?r") simp_all
    from brk sw have "type_out ?r = YP_PACK_END"
      by (cases "type_out ?r = YP_PACK_END")
         (simp_all add: pack_parse_body_def Let_def split: sum.splits)
    with assms(1) lt ok show False by blast
  qed
  with stop have st: "st = st'"
    by (simp add: loop_stops_def)
  from spans_tile_prefix [OF run] have
    "concat (map directive_source (directives_array st')) = take (format st') fmt"
    "format st' \<le> length fmt"
    by (simp_all add: scan_start_def)
  with at_end have tile: "concat (map directive_source (directives_array st)) = fmt"
    by (simp add: st)
  let ?ds = "directives_array st"
  have len: "sum_list (map (length \<circ> directive_source) ?ds) = length fmt"
    using arg_cong [OF tile, of length] by (simp add: length_concat comp_def)
  have slices: "\<forall>i<length ?ds.
      directive_source (?ds ! i) =
        take (length (directive_source (?ds ! i)))
          (drop (sum_list (map (length \<circ> directive_source) (take i ?ds))) fmt)"
  proof (intro allI impI)
    fix i assume i: "i < length ?ds"
    then have "i < length (map directive_source ?ds)" by simp
    from concat_nth_slice [OF this] i show
      "directive_source (?ds ! i) =
        take (length (directive_source (?ds ! i)))
          (drop (sum_list (map (length \<circ> directive_source) (take i ?ds))) fmt)"
      by (simp add: tile take_map length_concat comp_def)
  qed
  show ?thesis
    using result tile len slices
    by (intro exI [of _ ?ds] exI [of _ "pack_encoding_to_ruby (encoding st)"])
       (simp add: pack_format_new_def)
qed

theorem directive_spans_tile_the_format_string_witness:
  "pack_parse (yp_pack_parse_spec example_table) v3_2_0_symbol unpack_symbol
     (RString ''U w2'') =
     Some (Inr (RObject rb_cYARPPackFormat
       [RArray
          [RObject rb_cYARPPackDirective
             [v3_2_0_symbol, unpack_symbol, RString ''U'', RSymbol ''UTF8'',
              RSymbol ''SIGNED_NA'', RSymbol ''ENDIAN_NA'', RSymbol ''SIZE_NA'',
              RSymbol ''LENGTH_FIXED'', RInteger 1],
           RObject rb_cYARPPackDirective
             [v3_2_0_symbol, unpack_symbol, RString '' '', RSymbol ''SPACE'',
              RSymbol ''SIGNED_NA'', RSymbol ''ENDIAN_NA'', RSymbol ''SIZE_NA'',
              RSymbol ''LENGTH_NA'', RInteger 0],
           RObject rb_cYARPPackDirective
             [v3_2_0_symbol, unpack_symbol, RString ''w2'', RSymbol ''BER'',
              RSymbol ''SIGNED_NA'', RSymbol ''ENDIAN_NA'', RSymbol ''SIZE_NA'',
              RSymbol ''LENGTH_FIXED'', RInteger 2]],
        REncoding ASCII_8BIT]))
   \<and> concat [''U'', '' '', ''w2''] = ''U w2''"
proof -
  let ?R = "yp_pack_parse_spec example_table"
  let ?ds = "[RObject rb_cYARPPackDirective
             [v3_2_0_symbol, unpack_symbol, RString ''U'', RSymbol ''UTF8'',
              RSymbol ''SIGNED_NA'', RSymbol ''ENDIAN_NA'', RSymbol ''SIZE_NA'',
              RSymbol ''LENGTH_FIXED'', RInteger 1],
           RObject rb_cYARPPackDirective
             [v3_2_0_symbol, unpack_symbol, RString '' '', RSymbol ''SPACE'',
              RSymbol ''SIGNED_NA'', RSymbol ''ENDIAN_NA'', RSymbol ''SIZE_NA'',
              RSymbol ''LENGTH_NA'', RInteger 0],
           RObject rb_cYARPPackDirective
             [v3_2_0_symbol, unpack_symbol, RString ''w2'', RSymbol ''BER'',
              RSymbol ''SIGNED_NA'', RSymbol ''ENDIAN_NA'', RSymbol ''SIZE_NA'',
              RSymbol ''LENGTH_FIXED'', RInteger 2]]"
  have no_end: "\<forall>cursor enc. cursor < length ''U w2'' \<longrightarrow>
      parse_result (?R YP_PACK_VERSION_3_2_0 YP_PACK_VARIANT_UNPACK ''U w2'' cursor enc)
        = YP_PACK_OK \<longrightarrow>
      type_out (?R YP_PACK_VERSION_3_2_0 YP_PACK_VARIANT_UNPACK ''U w2'' cursor enc)
        \<noteq> YP_PACK_END"
  proof (intro allI impI)
    fix cursor enc
    assume "cursor < length ''U w2''"
      and "parse_result (?R YP_PACK_VERSION_3_2_0 YP_PACK_VARIANT_UNPACK ''U w2'' cursor enc)
        = YP_PACK_OK"
    then show "type_out (?R YP_PACK_VERSION_3_2_0 YP_PACK_VARIANT_UNPACK ''U w2'' cursor enc)
        \<noteq> YP_PACK_END"
      by (rule yp_pack_parse_spec_not_end [OF _ example_table_types])
  qed
  have run: "pack_parse ?R v3_2_0_symbol (symbol_of_variant YP_PACK_VARIANT_UNPACK)
     (RString ''U w2'') = Some (Inr (RObject rb_cYARPPackFormat [RArray ?ds, REncoding ASCII_8BIT]))"
    by (simp add: decode_eval)
  from directive_spans_tile_the_format_string [OF no_end run] obtain ds e where
    eq: "RObject rb_cYARPPackFormat [RArray ?ds, REncoding ASCII_8BIT]
           = RObject rb_cYARPPackFormat [RArray ds, e]"
    and tile: "concat (map directive_source ds) = ''U w2''"
    by (elim exE conjE)
  from eq have "ds = ?ds" by simp
  with tile have "concat [''U'', '' '', ''w2''] = ''U w2''" by simp
  with run show ?thesis by simp
qed

text \<open>
  C7. For the resolver of the specification and any grammar table: at every point of a
  scan the running encoding is the one forced by the last encoding-forcing directive
  emitted so far (the start value when there is none), and this is the encoding of the
  format object returned at the end of input; once the running encoding has left the
  start value it never returns to it later in the scan; and the result code of a span does
  not depend on the running encoding, so no conflict of encodings is an error.
\<close>

theorem last_forcing_directive_determines_encoding:
  assumes "iterates (yp_pack_parse_spec table) YP_PACK_VERSION_3_2_0 variant v3_2_0_symbol
             (symbol_of_variant variant) fmt scan_start st"
    and "iterates (yp_pack_parse_spec table) YP_PACK_VERSION_3_2_0 variant v3_2_0_symbol
             (symbol_of_variant variant) fmt st st'"
  shows "encoding st' = last_forced_encoding (directives_array st')
    \<and> (encoding st \<noteq> YP_PACK_ENCODING_START \<longrightarrow> encoding st' \<noteq> YP_PACK_ENCODING_START)
    \<and> (length fmt \<le> format st' \<longrightarrow>
         pack_parse (yp_pack_parse_spec table) v3_2_0_symbol (symbol_of_variant variant)
           (RString fmt) =
         Some (Inr (RObject rb_cYARPPackFormat
                      [RArray (directives_array st'),
                       pack_encoding_to_ruby (last_forced_encoding (directives_array st'))])))
    \<and> parse_result (yp_pack_parse_spec table YP_PACK_VERSION_3_2_0 variant fmt cursor e1) =
        parse_result (yp_pack_parse_spec table YP_PACK_VERSION_3_2_0 variant fmt cursor e2)"
proof -
  let ?R = "yp_pack_parse_spec table"
  have run: "iterates ?R YP_PACK_VERSION_3_2_0 variant v3_2_0_symbol
               (symbol_of_variant variant) fmt scan_start st'"
    using assms by (rule iterates_trans)
  have last: "encoding st' = last_forced_encoding (directives_array st')"
    by (rule encoding_is_last_forced [OF run])
       (simp add: scan_start_def last_forced_encoding_def)
  have keep: "encoding st \<noteq> YP_PACK_ENCODING_START \<longrightarrow> encoding st' \<noteq> YP_PACK_ENCODING_START"
    using encoding_never_reset [OF assms(2)] by blast
  have final: "length fmt \<le> format st' \<longrightarrow>
         pack_parse ?R v3_2_0_symbol (symbol_of_variant variant) (RString fmt) =
         Some (Inr (RObject rb_cYARPPackFormat
                      [RArray (directives_array st'),
                       pack_encoding_to_ruby (last_forced_encoding (directives_array st'))]))"
  proof
    assume "length fmt \<le> format st'"
    then have "\<not> format st' < length fmt" by simp
    then have "pack_parse_loop ?R YP_PACK_VERSION_3_2_0 variant v3_2_0_symbol
                 (symbol_of_variant variant) fmt st' = Some (Inr st')"
      by (rule pack_parse_loop_end)
    with pack_parse_loop_iterates [OF run] show
      "pack_parse ?R v3_2_0_symbol (symbol_of_variant variant) (RString fmt) =
         Some (Inr (RObject rb_cYARPPackFormat
                      [RArray (directives_array st'),
                       pack_encoding_to_ruby (last_forced_encoding (directives_array st'))]))"
      by (simp add: pack_parse_valid_arguments pack_format_new_def last)
  qed
  have "parse_result ((?R YP_PACK_VERSION_3_2_0 variant fmt cursor e1)\<lparr>encoding_out := e1\<rparr>) =
        parse_result ((?R YP_PACK_VERSION_3_2_0 variant fmt cursor e2)\<lparr>encoding_out := e1\<rparr>)"
    by (rule arg_cong [where f = parse_result, OF yp_pack_parse_spec_encoding_independent])
  then have code: "parse_result (?R YP_PACK_VERSION_3_2_0 variant fmt cursor e1) =
        parse_result (?R YP_PACK_VERSION_3_2_0 variant fmt cursor e2)"
    by simp
  from last keep final code show ?thesis
    by (intro conjI)
qed


theorem last_forcing_directive_determines_encoding_witness:
  "iterates (yp_pack_parse_spec example_table) YP_PACK_VERSION_3_2_0 YP_PACK_VARIANT_PACK
     v3_2_0_symbol pack_symbol ''Uw'' scan_start
     \<lparr>format = 1, encoding = YP_PACK_ENCODING_UTF_8,
      directives_array =
        [RObject rb_cYARPPackDirective
           [v3_2_0_symbol, pack_symbol, RString ''U'', RSymbol ''UTF8'',
            RSymbol ''SIGNED_NA'', RSymbol ''ENDIAN_NA'', RSymbol ''SIZE_NA'',
            RSymbol ''LENGTH_FIXED'', RInteger 1]]\<rparr>
   \<and> pack_parse (yp_pack_parse_spec example_table) v3_2_0_symbol pack_symbol (RString ''Uw'')
      = Some (Inr (RObject rb_cYARPPackFormat
          [RArray
            [RObject rb_cYARPPackDirective
               [v3_2_0_symbol, pack_symbol, RString ''U'', RSymbol ''UTF8'',
                RSymbol ''SIGNED_NA'', RSymbol ''ENDIAN_NA'', RSymbol ''SIZE_NA'',
                RSymbol ''LENGTH_FIXED'', RInteger 1],
             RObject rb_cYARPPackDirective
               [v3_2_0_symbol, pack_symbol, RString ''w'', RSymbol ''BER'',
                RSymbol ''SIGNED_NA'', RSymbol ''ENDIAN_NA'', RSymbol ''SIZE_NA'',
                RSymbol ''LENGTH_FIXED'', RInteger 1]],
           REncoding ASCII_8BIT]))"
proof -
  let ?R = "yp_pack_parse_spec example_table"
  let ?d1 = "RObject rb_cYARPPackDirective
               [v3_2_0_symbol, pack_symbol, RString ''U'', RSymbol ''UTF8'',
                RSymbol ''SIGNED_NA'', RSymbol ''ENDIAN_NA'', RSymbol ''SIZE_NA'',
                RSymbol ''LENGTH_FIXED'', RInteger 1]"
  let ?d2 = "RObject rb_cYARPPackDirective
               [v3_2_0_symbol, pack_symbol, RString ''w'', RSymbol ''BER'',
                RSymbol ''SIGNED_NA'', RSymbol ''ENDIAN_NA'', RSymbol ''SIZE_NA'',
                RSymbol ''LENGTH_FIXED'', RInteger 1]"
  let ?st1 = "\<lparr>format = 1, encoding = YP_PACK_ENCODING_UTF_8, directives_array = [?d1]\<rparr>"
  let ?st2 = "\<lparr>format = 2, encoding = YP_PACK_ENCODING_ASCII_8BIT,
              directives_array = [?d1, ?d2]\<rparr>"
  have step1: "pack_parse_body ?R YP_PACK_VERSION_3_2_0 YP_PACK_VARIANT_PACK v3_2_0_symbol
                 pack_symbol ''Uw'' scan_start = Next ?st1"
    by (simp add: decode_eval)
  have step2: "pack_parse_body ?R YP_PACK_VERSION_3_2_0 YP_PACK_VARIANT_PACK v3_2_0_symbol
                 pack_symbol ''Uw'' ?st1 = Next ?st2"
    by (simp add: decode_eval)
  have run1: "iterates ?R YP_PACK_VERSION_3_2_0 YP_PACK_VARIANT_PACK v3_2_0_symbol
                (symbol_of_variant YP_PACK_VARIANT_PACK) ''Uw'' scan_start ?st1"
    using iterates_next [OF iterates_start _ step1] by (simp add: scan_start_def)
  have run2: "iterates ?R YP_PACK_VERSION_3_2_0 YP_PACK_VARIANT_PACK v3_2_0_symbol
                (symbol_of_variant YP_PACK_VARIANT_PACK) ''Uw'' ?st1 ?st2"
    using iterates_next [OF iterates_start _ step2] by simp
  have forced: "last_forced_encoding [?d1, ?d2] = YP_PACK_ENCODING_ASCII_8BIT"
    by (simp add: last_forced_encoding_def directive_forced_encoding_def
        List.map_filter_def v3_2_0_symbol_def pack_symbol_def)
  from last_forcing_directive_determines_encoding [OF run1 run2]
  have "pack_parse ?R v3_2_0_symbol (symbol_of_variant YP_PACK_VARIANT_PACK) (RString ''Uw'') =
          Some (Inr (RObject rb_cYARPPackFormat
                       [RArray [?d1, ?d2],
                        pack_encoding_to_ruby (last_forced_encoding [?d1, ?d2])]))"
    by simp
  with run1 show ?thesis
    by (simp add: forced)
qed

text \<open>
  C2. The length of a directive is an unsigned 64-bit value, but line 438 hands it to
  \<^verbatim>\<open>LONG2NUM\<close>, which takes a signed \<^verbatim>\<open>long\<close>. The count 9223372036854775808 (two
  to the power 63) fits the unsigned 64-bit range and resolves without error, yet the
  directive's length reaches the caller as -9223372036854775808. A count of 2 to the
  power 64 is refused with the RangeError of \<open>LengthTooBig\<close> and no format object.
\<close>

theorem length_reported_through_signed_long:
  "length_out (yp_pack_parse_spec example_table YP_PACK_VERSION_3_2_0 YP_PACK_VARIANT_PACK
      ''C9223372036854775808'' 0 YP_PACK_ENCODING_START) = 9223372036854775808
   \<and> pack_parse (yp_pack_parse_spec example_table) v3_2_0_symbol pack_symbol
       (RString ''C9223372036854775808'') =
     Some (Inr (RObject rb_cYARPPackFormat
       [RArray
          [RObject rb_cYARPPackDirective
             [v3_2_0_symbol, pack_symbol, RString ''C9223372036854775808'',
              RSymbol ''INTEGER'', RSymbol ''UNSIGNED'', RSymbol ''AGNOSTIC_ENDIAN'',
              RSymbol ''SIZE_8'', RSymbol ''LENGTH_FIXED'',
              RInteger (- 9223372036854775808)]],
        Qnil]))
   \<and> pack_parse (yp_pack_parse_spec example_table) v3_2_0_symbol pack_symbol
       (RString ''C18446744073709551616'') =
     Some (Inl (rb_raise rb_eRangeError ''pack length too big''))"
  by (simp add: decode_eval)

text \<open>
  C3. The resolver tells a letter with no table entry from a letter that is not valid for
  the variant by its result code, but \<^verbatim>\<open>pack_parse\<close> raises an ArgumentError with the
  message "unsupported directive" for both codes: the error the caller sees is the same.
\<close>

theorem unknown_and_unsupported_directive_raise_alike:
  "parse_result (yp_pack_parse_spec example_table YP_PACK_VERSION_3_2_0 YP_PACK_VARIANT_PACK
      ''y'' 0 YP_PACK_ENCODING_START) = YP_PACK_ERROR_UNKNOWN_DIRECTIVE
   \<and> parse_result (yp_pack_parse_spec example_table YP_PACK_VERSION_3_2_0 YP_PACK_VARIANT_PACK
      ''%'' 0 YP_PACK_ENCODING_START) = YP_PACK_ERROR_UNSUPPORTED_DIRECTIVE
   \<and> pack_parse (yp_pack_parse_spec example_table) v3_2_0_symbol pack_symbol (RString ''y'') =
       Some (Inl (rb_raise rb_eArgError ''unsupported directive''))
   \<and> pack_parse (yp_pack_parse_spec example_table) v3_2_0_symbol pack_symbol (RString ''%'') =
       Some (Inl (rb_raise rb_eArgError ''unsupported directive''))
   \<and> parse_result_switch YP_PACK_ERROR_UNKNOWN_DIRECTIVE =
       parse_result_switch YP_PACK_ERROR_UNSUPPORTED_DIRECTIVE"
  by (simp add: decode_eval)

text \<open>
  C4, as stated, fails: the usage error for a version other than the supported one is an
  ArgumentError, and so is the decode-time error for an unknown directive letter.
\<close>

theorem usage_error_shares_exception_class:
  "raised_class
     (pack_parse (yp_pack_parse_spec example_table) (RSymbol ''v3_3_0'') pack_symbol
        (RString ''y'')) =
   raised_class
     (pack_parse (yp_pack_parse_spec example_table) v3_2_0_symbol pack_symbol (RString ''y''))
   \<and> pack_parse (yp_pack_parse_spec example_table) (RSymbol ''v3_3_0'') pack_symbol
        (RString ''y'') = Some (Inl (rb_raise rb_eArgError ''invalid version''))
   \<and> parse_result (yp_pack_parse_spec example_table YP_PACK_VERSION_3_2_0
         YP_PACK_VARIANT_PACK ''y'' 0 YP_PACK_ENCODING_START) = YP_PACK_ERROR_UNKNOWN_DIRECTIVE
   \<and> pack_parse (yp_pack_parse_spec example_table) v3_2_0_symbol pack_symbol (RString ''y'')
        = Some (Inl (rb_raise rb_eArgError ''unsupported directive''))"
  by (simp add: decode_eval)

text \<open>
  C4, amended. A version symbol other than the supported one raises the ArgumentError
  "invalid version", and with the supported version a variant symbol other than pack and
  unpack raises the ArgumentError "invalid variant"; either happens whatever the resolver
  and the format string are, so before any byte is scanned and before any directive is
  built. Neither error is one that the switch raises for a result code of the resolver:
  the usage errors differ from every decode-time error by their message.
\<close>

theorem usage_errors_raised_before_scanning:
  "(version_symbol \<noteq> v3_2_0_symbol \<longrightarrow>
      pack_parse R version_symbol variant_symbol format_string =
        Some (Inl (rb_raise rb_eArgError ''invalid version'')))
   \<and> (version_symbol = v3_2_0_symbol \<and> variant_symbol \<noteq> pack_symbol
        \<and> variant_symbol \<noteq> unpack_symbol \<longrightarrow>
      pack_parse R version_symbol variant_symbol format_string =
        Some (Inl (rb_raise rb_eArgError ''invalid variant'')))
   \<and> parse_result_switch code \<noteq> Some (rb_raise rb_eArgError ''invalid version'')
   \<and> parse_result_switch code \<noteq> Some (rb_raise rb_eArgError ''invalid variant'')"
  by (cases code) (simp_all add: pack_parse_def)

theorem usage_errors_raised_before_scanning_witness:
  "pack_parse (yp_pack_parse_spec example_table) (RSymbol ''v3_3_0'') (RSymbol ''both'')
     (RInteger 0) = Some (Inl (rb_raise rb_eArgError ''invalid version''))
   \<and> pack_parse (yp_pack_parse_spec example_table) v3_2_0_symbol (RSymbol ''both'')
     (RInteger 0) = Some (Inl (rb_raise rb_eArgError ''invalid variant''))"
  using usage_errors_raised_before_scanning
          [of "RSymbol ''v3_3_0''" "yp_pack_parse_spec example_table" "RSymbol ''both''"
              "RInteger 0"]
        usage_errors_raised_before_scanning
          [of v3_2_0_symbol "yp_pack_parse_spec example_table" "RSymbol ''both''"
              "RInteger 0"]
  by (simp add: v3_2_0_symbol_def pack_symbol_def unpack_symbol_def)

end
